theory Spec2Isabelle
  imports Main "HOL-Library.AList"
begin

section \<open>The device and call session coordinator of everydAI\<close>

text \<open>
  A shallow embedding of the server's in-memory coordinator: the \<open>DeviceManager\<close>
  (connection registry), the \<open>CallService\<close> (call sessions, audio chunks, transcriptions,
  observers) and the WebSocket handlers that drive them.

  Conventions of the embedding.
  \<^item> A \<open>Date\<close> is its number of milliseconds since the epoch (\<open>int\<close>); every operation
    that calls \<open>new Date()\<close> takes the clock reading \<open>now\<close> as an argument.
  \<^item> A JavaScript \<open>Map\<close> is an association list in insertion order: \<open>Map.set\<close> is
    \<open>AList.update\<close> (an existing key keeps its place, a new key goes last),
    \<open>Map.get\<close> is \<open>map_of\<close>, \<open>Map.delete\<close> is \<open>AList.delete\<close>. A \<open>Set\<close> is a list
    without repetition, in insertion order.
  \<^item> A string field read from a parsed JSON message may be absent: it is a
    \<open>string option\<close>, with \<open>None\<close> for \<open>undefined\<close>.
  \<^item> A WebSocket object is a reference into a store of sockets. \<open>ws.send\<close> either
    appends the frame to the socket's outbox or throws; which of the two is a property
    of the socket (the transport library decides it), recorded in the field \<open>throwing\<close>.
  \<^item> The speech capability \<open>processSpeech\<close> never throws (it catches everything and
    returns a text). Each call of it by the \<open>CallService\<close> is recorded in
    \<open>speechCalls\<close>, and the text it answers is an argument of the operation that awaits
    it. A handler is run to completion, its awaited continuations included, before the
    next one starts.
  \<^item> Logging and the WhatsApp notifications read and write nothing of the coordinator
    (\<open>sendToGroup\<close> never throws) and are left out.
\<close>

subsection \<open>Data model\<close>

type_synonym time = int
type_synonym jstr = "string option"
type_synonym wsref = nat

text \<open>The call record built by \<open>registerCall\<close>; the last four fields are \<open>undefined\<close>
  until \<open>updateCallStatus\<close> or \<open>finalizeCallProcessing\<close> set them.\<close>

record call =
  callId :: jstr
  phoneNumber :: jstr
  deviceId :: string
  startTime :: time
  isIncoming :: bool
  status :: jstr
  transcript :: "string option"
  processingTime :: nat
  answeredAt :: "time option"
  endedAt :: "time option"
  duration :: "int option"
  summary :: "string option"

text \<open>An inbound WebSocket message after \<open>JSON.parse\<close>: the fields the handlers read,
  and the remaining string fields (device model, application version, ...) as pairs.\<close>

record inbound =
  m_type :: jstr
  m_callId :: jstr
  m_phoneNumber :: jstr
  m_status :: jstr
  m_audio :: jstr
  m_isIncoming :: "bool option"
  m_requestId :: jstr
  m_extra :: "(string \<times> string) list"

text \<open>The objects handed to \<open>ws.send\<close> (before \<open>JSON.stringify\<close>).\<close>

datatype message =
    Error_reply string
  | Processed string jstr string
  | Call_command jstr string string
  | Call_update jstr call
  | Call_transcript jstr string bool time
  | Call_ai_response jstr string time
  | Call_summary jstr string time
  | Payload string

record socket =
  readyState :: nat
  throwing :: bool
  outbox :: "message list"
  closeCalled :: bool

record device =
  device_id :: string
  ws :: wsref
  connectedAt :: time
  lastActive :: time
  deviceInfo :: inbound
  isActive :: bool

text \<open>The three uses of \<open>processSpeech\<close>: the prompt built from the number of buffered
  chunks, a transcript delta, and the full transcript of an ended call.\<close>

datatype speech_call =
    Chunk_prompt jstr nat jstr
  | Delta_prompt jstr string
  | Summary_prompt jstr string

datatype error = Call_not_found | Exception

record server =
  devices :: "(string \<times> device) list"
  activeCalls :: "(jstr \<times> call) list"
  callAudioChunks :: "(jstr \<times> string list) list"
  callTranscriptions :: "(jstr \<times> string) list"
  callObservers :: "(jstr \<times> string list) list"
  sockets :: "wsref \<Rightarrow> socket"
  speechCalls :: "speech_call list"
  timers :: "(time \<times> jstr) list"

definition new_socket :: socket where
  "new_socket = \<lparr>readyState = 1, throwing = False, outbox = [], closeCalled = False\<rparr>"

definition new_server :: server where
  "new_server = \<lparr>devices = [], activeCalls = [], callAudioChunks = [],
     callTranscriptions = [], callObservers = [], sockets = (\<lambda>r. new_socket),
     speechCalls = [], timers = []\<rparr>"

definition no_fields :: inbound where
  "no_fields = \<lparr>m_type = None, m_callId = None, m_phoneNumber = None, m_status = None,
     m_audio = None, m_isIncoming = None, m_requestId = None, m_extra = []\<rparr>"

subsection \<open>The transport\<close>

text \<open>\<open>ws.send(JSON.stringify(m))\<close>: \<open>None\<close> when the call throws.\<close>

definition ws_send :: "server \<Rightarrow> wsref \<Rightarrow> message \<Rightarrow> server option" where
  "ws_send s r m =
     (let k = sockets s r
      in if throwing k then None
         else Some (s\<lparr>sockets := (sockets s)(r := k\<lparr>outbox := outbox k @ [m]\<rparr>)\<rparr>))"

text \<open>\<open>ws.close()\<close> inside its own \<open>try\<close>: an exception of it is swallowed.\<close>

definition ws_close :: "server \<Rightarrow> wsref \<Rightarrow> server" where
  "ws_close s r = s\<lparr>sockets := (sockets s)(r := (sockets s r)\<lparr>closeCalled := True\<rparr>)\<rparr>"

subsection \<open>DeviceManager\<close>

definition registerDevice :: "server \<Rightarrow> string \<Rightarrow> wsref \<Rightarrow> time \<Rightarrow> device \<times> server" where
  "registerDevice s i w now =
     (let dev = \<lparr>device_id = i, ws = w, connectedAt = now, lastActive = now,
                 deviceInfo = no_fields, isActive = True\<rparr>
      in (dev, s\<lparr>devices := AList.update i dev (devices s)\<rparr>))"

definition unregisterDevice :: "server \<Rightarrow> string \<Rightarrow> server" where
  "unregisterDevice s i =
     (if map_of (devices s) i \<noteq> None then s\<lparr>devices := AList.delete i (devices s)\<rparr> else s)"

text \<open>The object spread \<open>{...a, ...b}\<close>: every field present in \<open>b\<close> overrides.\<close>

definition override :: "'a option \<Rightarrow> 'a option \<Rightarrow> 'a option" where
  "override a b = (case b of None \<Rightarrow> a | Some v \<Rightarrow> Some v)"

definition spread :: "inbound \<Rightarrow> inbound \<Rightarrow> inbound" where
  "spread a b =
     \<lparr>m_type = override (m_type a) (m_type b),
      m_callId = override (m_callId a) (m_callId b),
      m_phoneNumber = override (m_phoneNumber a) (m_phoneNumber b),
      m_status = override (m_status a) (m_status b),
      m_audio = override (m_audio a) (m_audio b),
      m_isIncoming = override (m_isIncoming a) (m_isIncoming b),
      m_requestId = override (m_requestId a) (m_requestId b),
      m_extra = fold (\<lambda>(k, v). AList.update k v) (m_extra b) (m_extra a)\<rparr>"

definition updateDeviceInfo :: "server \<Rightarrow> string \<Rightarrow> inbound \<Rightarrow> time \<Rightarrow> server" where
  "updateDeviceInfo s i info now =
     (case map_of (devices s) i of
        None \<Rightarrow> s
      | Some dev \<Rightarrow>
          s\<lparr>devices := AList.update i
               (dev\<lparr>deviceInfo := spread (deviceInfo dev) info, lastActive := now\<rparr>)
               (devices s)\<rparr>)"

definition getDevice :: "server \<Rightarrow> string \<Rightarrow> device option" where
  "getDevice s i = map_of (devices s) i"

definition sendToDevice :: "server \<Rightarrow> string \<Rightarrow> message \<Rightarrow> time \<Rightarrow> bool \<times> server" where
  "sendToDevice s i m now =
     (case map_of (devices s) i of
        None \<Rightarrow> (False, s)
      | Some dev \<Rightarrow>
          (case ws_send s (ws dev) m of
             None \<Rightarrow> (False, s)
           | Some s' \<Rightarrow>
               (True, s'\<lparr>devices := AList.update i (dev\<lparr>lastActive := now\<rparr>) (devices s')\<rparr>)))"

text \<open>\<open>this.devices.forEach\<close> of \<open>broadcastToAll\<close>, over the entries in insertion order,
  with the two counters.\<close>

fun broadcast_each ::
  "server \<Rightarrow> (string \<times> device) list \<Rightarrow> message \<Rightarrow> time \<Rightarrow> nat \<Rightarrow> nat \<Rightarrow> (nat \<times> nat) \<times> server"
where
  "broadcast_each s [] m now successCount failedCount = ((successCount, failedCount), s)"
| "broadcast_each s ((i, dev) # rest) m now successCount failedCount =
     (case ws_send s (ws dev) m of
        None \<Rightarrow> broadcast_each s rest m now successCount (Suc failedCount)
      | Some s' \<Rightarrow>
          broadcast_each
            (s'\<lparr>devices := AList.update i (dev\<lparr>lastActive := now\<rparr>) (devices s')\<rparr>)
            rest m now (Suc successCount) failedCount)"

definition broadcastToAll :: "server \<Rightarrow> message \<Rightarrow> time \<Rightarrow> (nat \<times> nat) \<times> server" where
  "broadcastToAll s m now = broadcast_each s (devices s) m now 0 0"

text \<open>\<open>cleanInactiveDevices(maxInactiveTime = 30 * 60 * 1000)\<close>: \<open>None\<close> is the omitted
  argument.\<close>

fun clean_each :: "server \<Rightarrow> (string \<times> device) list \<Rightarrow> int \<Rightarrow> time \<Rightarrow> nat \<Rightarrow> nat \<times> server" where
  "clean_each s [] maxInactiveTime now count = (count, s)"
| "clean_each s ((i, dev) # rest) maxInactiveTime now count =
     (let inactiveTime = now - lastActive dev
      in if inactiveTime > maxInactiveTime
         then clean_each ((ws_close s (ws dev))\<lparr>devices := AList.delete i (devices s)\<rparr>)
                rest maxInactiveTime now (Suc count)
         else clean_each s rest maxInactiveTime now count)"

definition cleanInactiveDevices :: "server \<Rightarrow> int option \<Rightarrow> time \<Rightarrow> nat \<times> server" where
  "cleanInactiveDevices s maxInactiveTime now =
     clean_each s (devices s)
       (case maxInactiveTime of None \<Rightarrow> 30 * 60 * 1000 | Some t \<Rightarrow> t) now 0"

subsection \<open>CallService: observers and their notification\<close>

definition addCallObserver :: "server \<Rightarrow> jstr \<Rightarrow> string \<Rightarrow> server" where
  "addCallObserver s cid clientId =
     (let s1 = (if map_of (callObservers s) cid = None
                then s\<lparr>callObservers := AList.update cid [] (callObservers s)\<rparr> else s)
      in case map_of (callObservers s1) cid of
           None \<Rightarrow> s1
         | Some observers \<Rightarrow>
             s1\<lparr>callObservers := AList.update cid
                  (if clientId \<in> set observers then observers else observers @ [clientId])
                  (callObservers s1)\<rparr>)"

definition removeCallObserver :: "server \<Rightarrow> jstr \<Rightarrow> string \<Rightarrow> server" where
  "removeCallObserver s cid clientId =
     (case map_of (callObservers s) cid of
        None \<Rightarrow> s
      | Some observers \<Rightarrow>
          s\<lparr>callObservers := AList.update cid (removeAll clientId observers) (callObservers s)\<rparr>)"

text \<open>The loop shared by the four \<open>broadcast...\<close> methods:
  \<^verbatim>\<open>observers.forEach(clientId => { const client = deviceManager.getDevice(clientId);
     if (client && client.ws) client.ws.send(JSON.stringify(message)); })\<close>.
  The flag is \<open>False\<close> when a \<open>send\<close> threw: nothing catches it inside the loop, so the
  remaining observers are not visited and the exception leaves the method.\<close>

fun forEach_observer :: "server \<Rightarrow> string list \<Rightarrow> message \<Rightarrow> server \<times> bool" where
  "forEach_observer s [] m = (s, True)"
| "forEach_observer s (clientId # rest) m =
     (case getDevice s clientId of
        None \<Rightarrow> forEach_observer s rest m
      | Some client \<Rightarrow>
          (case ws_send s (ws client) m of
             None \<Rightarrow> (s, False)
           | Some s' \<Rightarrow> forEach_observer s' rest m))"

definition notify_observers :: "server \<Rightarrow> jstr \<Rightarrow> message \<Rightarrow> server \<times> bool" where
  "notify_observers s cid m =
     (case map_of (callObservers s) cid of
        None \<Rightarrow> (s, True)
      | Some observers \<Rightarrow>
          if length observers = 0 then (s, True) else forEach_observer s observers m)"

definition broadcastCallUpdate :: "server \<Rightarrow> jstr \<Rightarrow> call \<Rightarrow> server \<times> bool" where
  "broadcastCallUpdate s cid c = notify_observers s cid (Call_update cid (c\<lparr>transcript := None\<rparr>))"

definition broadcastTranscriptionUpdate ::
  "server \<Rightarrow> jstr \<Rightarrow> string \<Rightarrow> bool \<Rightarrow> time \<Rightarrow> server \<times> bool" where
  "broadcastTranscriptionUpdate s cid text isFinal now =
     notify_observers s cid (Call_transcript cid text isFinal now)"

definition broadcastAiResponse :: "server \<Rightarrow> jstr \<Rightarrow> string \<Rightarrow> time \<Rightarrow> server \<times> bool" where
  "broadcastAiResponse s cid response now = notify_observers s cid (Call_ai_response cid response now)"

definition broadcastCallSummary :: "server \<Rightarrow> jstr \<Rightarrow> string \<Rightarrow> time \<Rightarrow> server \<times> bool" where
  "broadcastCallSummary s cid text now = notify_observers s cid (Call_summary cid text now)"

subsection \<open>CallService: registration\<close>

text \<open>\<open>registerCall(callId, phoneNumber, deviceId, isIncoming = true)\<close>. The three
  \<open>Map.set\<close> come first; an exception of the broadcast is caught afterwards and
  reported as \<open>{success: false}\<close>.\<close>

definition registerCall ::
  "server \<Rightarrow> jstr \<Rightarrow> jstr \<Rightarrow> string \<Rightarrow> bool option \<Rightarrow> time \<Rightarrow> (error + call) \<times> server" where
  "registerCall s cid phone dev incoming now =
     (let c = \<lparr>callId = cid, phoneNumber = phone, deviceId = dev, startTime = now,
               isIncoming = (case incoming of None \<Rightarrow> True | Some b \<Rightarrow> b),
               status = Some ''ringing'', transcript = Some [], processingTime = 0,
               answeredAt = None, endedAt = None, duration = None, summary = None\<rparr>;
          s1 = s\<lparr>activeCalls := AList.update cid c (activeCalls s),
                 callAudioChunks := AList.update cid [] (callAudioChunks s),
                 callTranscriptions := AList.update cid [] (callTranscriptions s)\<rparr>;
          (s2, ok) = broadcastCallUpdate s1 cid c
      in (if ok then Inr c else Inl Exception, s2))"

subsection \<open>CallService: ending a call\<close>

text \<open>\<open>Math.round(ms / 1000)\<close> on a whole number of milliseconds: the nearest integer,
  a half rounding up.\<close>

definition round_seconds :: "int \<Rightarrow> int" where
  "round_seconds ms = (ms + 500) div 1000"

text \<open>\<open>fullTranscript.trim().length === 0\<close>: \<open>trim\<close> removes the white space and line
  terminators at both ends (here those among the 8-bit characters).\<close>

definition js_whitespace :: "char \<Rightarrow> bool" where
  "js_whitespace c = (c \<in> set [CHR 0x09, CHR 0x0A, CHR 0x0B, CHR 0x0C, CHR 0x0D, CHR 0x20, CHR 0xA0])"

definition trim :: "string \<Rightarrow> string" where
  "trim t = rev (dropWhile js_whitespace (rev (dropWhile js_whitespace t)))"

definition cleanupCall :: "server \<Rightarrow> jstr \<Rightarrow> server" where
  "cleanupCall s cid = s\<lparr>callAudioChunks := AList.delete cid (callAudioChunks s)\<rparr>"

text \<open>\<open>finalizeCallProcessing\<close> up to its \<open>await processSpeech(fullTranscript, ...)\<close>:
  the flag tells whether the summary was requested.\<close>

definition finalize_request :: "server \<Rightarrow> jstr \<Rightarrow> server \<times> bool" where
  "finalize_request s cid =
     (case map_of (activeCalls s) cid of
        None \<Rightarrow> (s, False)
      | Some c \<Rightarrow>
          (let fullTranscript = (case map_of (callTranscriptions s) cid of None \<Rightarrow> [] | Some t \<Rightarrow> t)
           in if length (trim fullTranscript) = 0 then (s, False)
              else (s\<lparr>speechCalls := speechCalls s @ [Summary_prompt cid fullTranscript]\<rparr>, True)))"

text \<open>... and after it: the summary is stored on the call and broadcast, then the
  cleanup is scheduled with \<open>setTimeout(..., 60000)\<close>. An exception of the broadcast is
  caught by the method's \<open>catch\<close>, which skips the \<open>setTimeout\<close>.\<close>

definition finalize_resume :: "server \<Rightarrow> jstr \<Rightarrow> string \<Rightarrow> time \<Rightarrow> server" where
  "finalize_resume s cid answer now =
     (case map_of (activeCalls s) cid of
        None \<Rightarrow> s
      | Some c \<Rightarrow>
          (let s1 = s\<lparr>activeCalls := AList.update cid (c\<lparr>summary := Some answer\<rparr>) (activeCalls s)\<rparr>;
               (s2, ok) = broadcastCallSummary s1 cid answer now
           in if ok then s2\<lparr>timers := timers s2 @ [(now + 60000, cid)]\<rparr> else s2))"

definition finalizeCallProcessing :: "server \<Rightarrow> jstr \<Rightarrow> string \<Rightarrow> time \<Rightarrow> server" where
  "finalizeCallProcessing s cid answer now =
     (let (s1, requested) = finalize_request s cid
      in if requested then finalize_resume s1 cid answer now else s1)"

text \<open>The assignments of \<open>updateCallStatus\<close> to the call object:
  \<^verbatim>\<open>call.status = status;
  if (status === 'answered') { call.answeredAt = new Date(); }
  else if (status === 'ended') { call.endedAt = new Date();
    call.duration = Math.round((call.endedAt - (call.answeredAt || call.startTime)) / 1000); ... }\<close>\<close>

definition set_status :: "call \<Rightarrow> jstr \<Rightarrow> time \<Rightarrow> call" where
  "set_status c0 newStatus now =
     (let c1 = c0\<lparr>status := newStatus\<rparr>
      in if newStatus = Some ''answered'' then c1\<lparr>answeredAt := Some now\<rparr>
         else if newStatus = Some ''ended''
         then c1\<lparr>endedAt := Some now,
                 duration := Some (round_seconds
                   (now - (case answeredAt c1 of Some a \<Rightarrow> a | None \<Rightarrow> startTime c1)))\<rparr>
         else c1)"

text \<open>\<open>updateCallStatus(callId, status)\<close>. The call to \<open>finalizeCallProcessing\<close> is not
  awaited: it runs up to its \<open>await\<close>, \<open>updateCallStatus\<close> goes on to the broadcast and
  returns, and the rest of the finalization follows.\<close>

definition updateCallStatus ::
  "server \<Rightarrow> jstr \<Rightarrow> jstr \<Rightarrow> time \<Rightarrow> string \<Rightarrow> (error + call) \<times> server" where
  "updateCallStatus s cid newStatus now answer =
     (case map_of (activeCalls s) cid of
        None \<Rightarrow> (Inl Call_not_found, s)
      | Some c0 \<Rightarrow>
          (let c2 = set_status c0 newStatus now;
               s1 = s\<lparr>activeCalls := AList.update cid c2 (activeCalls s)\<rparr>;
               (s2, requested) = (if newStatus = Some ''ended'' then finalize_request s1 cid
                                  else (s1, False));
               (s3, ok) = broadcastCallUpdate s2 cid c2;
               s4 = (if requested then finalize_resume s3 cid answer now else s3)
           in (if ok then Inr c2 else Inl Exception, s4)))"

text \<open>The event loop running the \<open>setTimeout\<close> callbacks that are due at \<open>now\<close>.\<close>

definition fire_timers :: "server \<Rightarrow> time \<Rightarrow> server" where
  "fire_timers s now =
     fold (\<lambda>(t, cid) s'. cleanupCall s' cid) (filter (\<lambda>(t, cid). t \<le> now) (timers s))
       (s\<lparr>timers := filter (\<lambda>(t, cid). \<not> t \<le> now) (timers s)\<rparr>)"

definition getActiveCalls :: "server \<Rightarrow> call list" where
  "getActiveCalls s = map snd (activeCalls s)"

definition getCall :: "server \<Rightarrow> jstr \<Rightarrow> call option" where
  "getCall s cid = map_of (activeCalls s) cid"

subsection \<open>CallService: audio and transcription\<close>

text \<open>\<open>processAudioForTranscription\<close>. The speech capability is called unless the guard
  \<^verbatim>\<open>audioChunks.length % 20 !== 0 && audioChunks.length > 1\<close> returns \<open>null\<close> first.
  Of the object it returns only the field \<open>transcript\<close> is read by the caller, so the
  result is that text; \<open>heard\<close> is what \<open>processSpeech\<close> answers.\<close>

definition processAudioForTranscription :: "server \<Rightarrow> jstr \<Rightarrow> string \<Rightarrow> server \<times> string option" where
  "processAudioForTranscription s cid heard =
     (let audioChunks = (case map_of (callAudioChunks s) cid of None \<Rightarrow> [] | Some chunks \<Rightarrow> chunks)
      in if length audioChunks mod 20 \<noteq> 0 \<and> length audioChunks > 1 then (s, None)
         else (case map_of (activeCalls s) cid of
                 None \<Rightarrow> (s, None)
               | Some c \<Rightarrow>
                   (s\<lparr>speechCalls := speechCalls s @
                        [Chunk_prompt cid (length audioChunks) (phoneNumber c)]\<rparr>,
                    Some (if heard = [] then ''Unintelligible audio'' else heard))))"

text \<open>\<open>processTranscriptForResponse\<close>, whose own \<open>catch\<close> swallows every exception.\<close>

definition processTranscriptForResponse :: "server \<Rightarrow> jstr \<Rightarrow> string \<Rightarrow> time \<Rightarrow> string \<Rightarrow> server" where
  "processTranscriptForResponse s cid text now aiResponse =
     (case map_of (activeCalls s) cid of
        None \<Rightarrow> s
      | Some c \<Rightarrow>
          (let s1 = s\<lparr>speechCalls := speechCalls s @ [Delta_prompt cid text]\<rparr>
           in if aiResponse = [] then s1
              else (case (case getDevice s1 (deviceId c) of
                            None \<Rightarrow> Some s1
                          | Some dev \<Rightarrow> ws_send s1 (ws dev) (Call_command cid ''speak'' aiResponse)) of
                      None \<Rightarrow> s1
                    | Some s2 \<Rightarrow> fst (broadcastAiResponse s2 cid aiResponse now))))"

text \<open>\<open>processCallAudio(callId, base64Audio)\<close>. The chunk is kept as the text received:
  nothing reads the decoded bytes. \<open>Buffer.from(undefined, 'base64')\<close> throws.\<close>

definition processCallAudio ::
  "server \<Rightarrow> jstr \<Rightarrow> jstr \<Rightarrow> time \<Rightarrow> string \<Rightarrow> string \<Rightarrow> (error + unit) \<times> server" where
  "processCallAudio s cid base64Audio now heard aiResponse =
     (case map_of (activeCalls s) cid of
        None \<Rightarrow> (Inl Call_not_found, s)
      | Some c \<Rightarrow>
          (case base64Audio of
             None \<Rightarrow> (Inl Exception, s)
           | Some audioBuffer \<Rightarrow>
               (let s1 = (case map_of (callAudioChunks s) cid of
                            Some chunks \<Rightarrow>
                              s\<lparr>callAudioChunks := AList.update cid (chunks @ [audioBuffer]) (callAudioChunks s)\<rparr>
                          | None \<Rightarrow>
                              s\<lparr>callAudioChunks := AList.update cid [audioBuffer] (callAudioChunks s)\<rparr>);
                    (s2, transcriptionUpdate) = processAudioForTranscription s1 cid heard
                in case transcriptionUpdate of
                     None \<Rightarrow> (Inr (), s2)
                   | Some text \<Rightarrow>
                       if text = [] then (Inr (), s2)
                       else (let whole = (case transcript c of None \<Rightarrow> [] | Some t \<Rightarrow> t) @ '' '' @ text;
                                 s3 = s2\<lparr>activeCalls := AList.update cid (c\<lparr>transcript := Some whole\<rparr>) (activeCalls s2),
                                        callTranscriptions := AList.update cid whole (callTranscriptions s2)\<rparr>;
                                 (s4, ok) = broadcastTranscriptionUpdate s3 cid text False now
                             in if ok then (Inr (), processTranscriptForResponse s4 cid text now aiResponse)
                                else (Inl Exception, s4)))))"

subsection \<open>The WebSocket handlers\<close>

text \<open>\<open>handleNotification\<close> and \<open>handleSMS\<close> answer the sender when its socket is open
  (\<open>readyState === 1\<close>) and catch every exception; \<open>handleCall\<close> only notifies WhatsApp.\<close>

definition handleNotification :: "server \<Rightarrow> wsref \<Rightarrow> inbound \<Rightarrow> string \<Rightarrow> server" where
  "handleNotification s w data result =
     (if readyState (sockets s w) = 1
      then (case ws_send s w (Processed ''notification_processed'' (m_requestId data) result) of
              None \<Rightarrow> s | Some s' \<Rightarrow> s')
      else s)"

definition handleSMS :: "server \<Rightarrow> wsref \<Rightarrow> inbound \<Rightarrow> string \<Rightarrow> server" where
  "handleSMS s w data result =
     (if readyState (sockets s w) = 1
      then (case ws_send s w (Processed ''sms_processed'' (m_requestId data) result) of
              None \<Rightarrow> s | Some s' \<Rightarrow> s')
      else s)"

definition handleCall :: "server \<Rightarrow> wsref \<Rightarrow> inbound \<Rightarrow> server" where
  "handleCall s w data = s"

text \<open>What the \<open>message\<close> handler makes of a frame, by the first statement of its \<open>try\<close>
  block that can throw.
  \<^item> \<open>Unparsable\<close>: the frame is not JSON, and \<open>JSON.parse\<close> throws.
  \<^item> \<open>Null_frame\<close>: the frame is the JSON text \<open>null\<close>; \<open>JSON.parse\<close> returns \<open>null\<close> and
    reading \<open>data.type\<close> for the log line throws.
  \<^item> \<open>Unprintable_type\<close>: the frame parses to an object whose \<open>type\<close> is a value that
    cannot be converted to a string, as in \<^verbatim>\<open>{"type":{"toString":1}}\<close>; the template literal
    of the log line throws.
  \<^item> \<open>Parsed data\<close>: every other frame, with the fields that the handlers read. A \<open>type\<close>
    that is absent, or is no string but can be printed (a number, \<open>true\<close>, \<open>null\<close>, a
    plain object), is \<open>None\<close> there: it is strictly equal to none of the case labels. A
    frame that parses to a number, a string, a boolean or an array has none of the
    fields: it is \<open>Parsed no_fields\<close>.\<close>

datatype frame = Unparsable | Null_frame | Unprintable_type | Parsed inbound

text \<open>The \<open>catch\<close> block of the \<open>message\<close> handler: the error reply to the sender. When
  this \<open>send\<close> throws too, nothing catches it and nothing is written.\<close>

definition reply_failure :: "server \<Rightarrow> wsref \<Rightarrow> server" where
  "reply_failure s w =
     (case ws_send s w (Error_reply ''Failed to process message'') of
        None \<Rightarrow> s | Some s' \<Rightarrow> s')"

text \<open>\<open>ws.on('message', ...)\<close> of the connection \<open>connectionId\<close> with socket \<open>w\<close>. The
  first three kinds of frame throw at the first two lines of the \<open>try\<close> block and reach
  the \<open>catch\<close>; for a \<open>Parsed\<close> frame the handler goes on to the dispatch, where every
  operation called catches its own exceptions, and the \<open>default\<close> branch only logs a
  warning. \<open>a1\<close> and \<open>a2\<close> are the answers of the capabilities awaited on the way. The
  handler is run to its end, awaited continuations included; the server itself can start
  on the next frame of any connection while a capability is awaited, and such
  interleavings are not covered.\<close>

definition ws_on_message ::
  "server \<Rightarrow> string \<Rightarrow> wsref \<Rightarrow> frame \<Rightarrow> time \<Rightarrow> string \<Rightarrow> string \<Rightarrow> server" where
  "ws_on_message s connectionId w message now a1 a2 =
     (case message of
        Unparsable \<Rightarrow> reply_failure s w
      | Null_frame \<Rightarrow> reply_failure s w
      | Unprintable_type \<Rightarrow> reply_failure s w
      | Parsed data \<Rightarrow>
          if m_type data = Some ''init'' then updateDeviceInfo s connectionId data now
          else if m_type data = Some ''notification'' then handleNotification s w data a1
          else if m_type data = Some ''sms'' then handleSMS s w data a1
          else if m_type data = Some ''call'' then handleCall s w data
          else if m_type data = Some ''call_audio''
            then snd (processCallAudio s (m_callId data) (m_audio data) now a1 a2)
          else if m_type data = Some ''call_register''
            then snd (registerCall s (m_callId data) (m_phoneNumber data) connectionId
                        (m_isIncoming data) now)
          else if m_type data = Some ''call_status''
            then snd (updateCallStatus s (m_callId data) (m_status data) now a1)
          else if m_type data = Some ''call_observe''
            then addCallObserver s (m_callId data) connectionId
          else if m_type data = Some ''command'' then s
          else s)"

text \<open>\<open>ws.on('close', ...)\<close>.\<close>

definition ws_on_close :: "server \<Rightarrow> string \<Rightarrow> server" where
  "ws_on_close s connectionId = unregisterDevice s connectionId"

subsection \<open>Notions used in the statements\<close>

text \<open>The observer set of a call (empty when the call has none), the condition that
  none of the registered connections among some identifiers has a socket whose \<open>send\<close>
  throws, and how many of the identifiers are registered with a given socket.\<close>

definition observers_of :: "server \<Rightarrow> jstr \<Rightarrow> string list" where
  "observers_of s cid = (case map_of (callObservers s) cid of None \<Rightarrow> [] | Some observers \<Rightarrow> observers)"

definition writable :: "server \<Rightarrow> string list \<Rightarrow> bool" where
  "writable s ids =
     (\<forall>clientId \<in> set ids.
        case getDevice s clientId of None \<Rightarrow> True | Some client \<Rightarrow> \<not> throwing (sockets s (ws client)))"

definition subscriptions :: "server \<Rightarrow> string list \<Rightarrow> wsref \<Rightarrow> nat" where
  "subscriptions s ids r =
     length (filter (\<lambda>clientId. case getDevice s clientId of None \<Rightarrow> False | Some client \<Rightarrow> ws client = r) ids)"

text \<open>The text that \<open>finalizeCallProcessing\<close> reads:
  \<^verbatim>\<open>this.callTranscriptions.get(callId) || ''\<close>.\<close>

definition transcription_of :: "server \<Rightarrow> jstr \<Rightarrow> string" where
  "transcription_of s cid = (case map_of (callTranscriptions s) cid of None \<Rightarrow> [] | Some t \<Rightarrow> t)"

text \<open>The record that \<open>registerCall\<close> builds.\<close>

definition fresh_call :: "jstr \<Rightarrow> jstr \<Rightarrow> string \<Rightarrow> bool option \<Rightarrow> time \<Rightarrow> call" where
  "fresh_call cid phone dev incoming now =
     \<lparr>callId = cid, phoneNumber = phone, deviceId = dev, startTime = now,
      isIncoming = (case incoming of None \<Rightarrow> True | Some b \<Rightarrow> b),
      status = Some ''ringing'', transcript = Some [], processingTime = 0,
      answeredAt = None, endedAt = None, duration = None, summary = None\<rparr>"

text \<open>The audio buffer of a call (\<^verbatim>\<open>this.callAudioChunks.get(callId) || []\<close>), the number
  of transcription attempts made for a call (the calls of the speech capability from
  \<open>processAudioForTranscription\<close>), and the ingestion of a sequence of fragments, each
  with the time it arrives at and the answers the speech capability gives on its way.\<close>

definition chunks_of :: "server \<Rightarrow> jstr \<Rightarrow> string list" where
  "chunks_of s cid = (case map_of (callAudioChunks s) cid of None \<Rightarrow> [] | Some chunks \<Rightarrow> chunks)"

definition transcription_attempts :: "server \<Rightarrow> jstr \<Rightarrow> nat" where
  "transcription_attempts s cid =
     length (filter (\<lambda>q. case q of Chunk_prompt c n p \<Rightarrow> c = cid | _ \<Rightarrow> False) (speechCalls s))"

fun ingest :: "server \<Rightarrow> jstr \<Rightarrow> (string \<times> time \<times> string \<times> string) list \<Rightarrow> server" where
  "ingest s cid [] = s"
| "ingest s cid ((audio, now, heard, aiResponse) # rest) =
     ingest (snd (processCallAudio s cid (Some audio) now heard aiResponse)) cid rest"

text \<open>The registry entry that \<open>registerDevice\<close> builds.\<close>

definition new_device :: "string \<Rightarrow> wsref \<Rightarrow> time \<Rightarrow> device" where
  "new_device i w now = \<lparr>device_id = i, ws = w, connectedAt = now, lastActive = now,
     deviceInfo = no_fields, isActive = True\<rparr>"

text \<open>The error replies among the frames written to a socket, and the message types
  that the \<open>message\<close> handler knows.\<close>

definition is_error_reply :: "message \<Rightarrow> bool" where
  "is_error_reply m = (case m of Error_reply e \<Rightarrow> True | _ \<Rightarrow> False)"

definition error_replies :: "server \<Rightarrow> wsref \<Rightarrow> message list" where
  "error_replies s r = filter is_error_reply (outbox (sockets s r))"

definition known_types :: "string list" where
  "known_types = [''init'', ''notification'', ''sms'', ''call'', ''call_audio'', ''call_register'',
     ''call_status'', ''call_observe'', ''command'']"

subsection \<open>Scenarios\<close>

text \<open>A desktop connection \<open>o1\<close> on socket 7 observes call \<open>c2\<close>; the device \<open>d1\<close>
  registers the calls \<open>c1\<close> and \<open>c2\<close>, and \<open>c2\<close> is answered one second later.\<close>

definition two_calls :: server where
  "two_calls =
     snd (registerCall
       (snd (registerCall
          (addCallObserver (snd (registerDevice new_server ''o1'' 7 0)) (Some ''c2'') ''o1'')
          (Some ''c1'') (Some ''+15550000001'') ''d1'' (Some True) 0))
       (Some ''c2'') (Some ''+15551234567'') ''d1'' (Some True) 0)"

definition dup_before :: server where
  "dup_before = snd (updateCallStatus two_calls (Some ''c2'') (Some ''answered'') 1000 [])"

text \<open>Scenario A of the specification: call \<open>c1\<close> from \<open>+15551234567\<close> on device \<open>d1\<close>
  is registered at time 0, answered at 3 s and ended at 45 s.\<close>

definition ringing_c1 :: server where
  "ringing_c1 = snd (registerCall new_server (Some ''c1'') (Some ''+15551234567'') ''d1'' (Some True) 0)"

definition answered_c1 :: server where
  "answered_c1 = snd (updateCallStatus ringing_c1 (Some ''c1'') (Some ''answered'') 3000 [])"

definition ended_c1 :: server where
  "ended_c1 = snd (updateCallStatus answered_c1 (Some ''c1'') (Some ''ended'') 45000 [])"

text \<open>The device \<open>d1\<close> is connected on socket 3 and the desktop \<open>o1\<close> on socket 7;
  \<open>o1\<close> observes call \<open>c1\<close>, which \<open>d1\<close> registers. One audio chunk is received and
  transcribed as \<open>hello\<close>; then the status update \<open>ended\<close> arrives twice, at 5 s and
  at 6 s.\<close>

definition observed_c1 :: server where
  "observed_c1 =
     snd (registerCall
       (addCallObserver
          (snd (registerDevice (snd (registerDevice new_server ''d1'' 3 0)) ''o1'' 7 0))
          (Some ''c1'') ''o1'')
       (Some ''c1'') (Some ''+15551234567'') ''d1'' (Some True) 0)"

definition heard_c1 :: server where
  "heard_c1 = snd (processCallAudio observed_c1 (Some ''c1'') (Some ''QUJD'') 1000 ''hello'' ''hi'')"

definition ended_once :: server where
  "ended_once = snd (updateCallStatus heard_c1 (Some ''c1'') (Some ''ended'') 5000 ''first summary'')"

definition ended_twice :: server where
  "ended_twice = snd (updateCallStatus ended_once (Some ''c1'') (Some ''ended'') 6000 ''second summary'')"

text \<open>... and 60 s after the first \<open>ended\<close> update the timers that are due run.\<close>

definition grace_elapsed :: server where
  "grace_elapsed = fire_timers ended_once 65000"

text \<open>Scenario C of the specification: the connections \<open>o1\<close> (socket 7) and \<open>o2\<close>
  (socket 8) observe call \<open>c1\<close>, and so does the identifier \<open>ghost\<close>, which is not a
  registered connection.\<close>

definition scenario_C :: server where
  "scenario_C =
     addCallObserver
       (addCallObserver
          (addCallObserver
             (snd (registerCall
                (snd (registerDevice (snd (registerDevice new_server ''o1'' 7 0)) ''o2'' 8 0))
                (Some ''c1'') (Some ''+15551234567'') ''d1'' (Some True) 0))
             (Some ''c1'') ''o1'')
          (Some ''c1'') ''ghost'')
       (Some ''c1'') ''o2''"

text \<open>The state \<open>observed_c1\<close> when the socket of the device \<open>d1\<close> refuses writes.\<close>

definition broken_d1 :: server where
  "broken_d1 = observed_c1\<lparr>sockets := (sockets observed_c1)(3 := (sockets observed_c1 3)\<lparr>throwing := True\<rparr>)\<rparr>"


section \<open>Properties\<close>

subsection \<open>What notifying the observers changes\<close>

lemma ws_send_frame: "ws_send s r m = Some s' \<Longrightarrow> s' = s\<lparr>sockets := sockets s'\<rparr>"
  by (auto simp: ws_send_def Let_def split: if_splits)

lemma ws_send_writable:
  "\<not> throwing (sockets s r) \<Longrightarrow>
     ws_send s r m = Some (s\<lparr>sockets := (sockets s)(r := (sockets s r)\<lparr>outbox := outbox (sockets s r) @ [m]\<rparr>)\<rparr>)"
  by (simp add: ws_send_def Let_def)

lemma ws_send_throwing: "throwing (sockets s r) \<Longrightarrow> ws_send s r m = None"
  by (simp add: ws_send_def Let_def)

text \<open>A \<open>send\<close> that throws ends the loop: the observers after it are not served and
  the caller sees the exception.\<close>

lemma forEach_observer_throwing:
  "getDevice s clientId = Some client \<Longrightarrow> throwing (sockets s (ws client)) \<Longrightarrow>
     forEach_observer s (clientId # rest) m = (s, False)"
  by (simp add: ws_send_throwing)

lemma forEach_observer_frame:
  "forEach_observer s ids m = (s', ok) \<Longrightarrow> s' = s\<lparr>sockets := sockets s'\<rparr>"
proof (induction ids arbitrary: s)
  case Nil
  then show ?case by simp
next
  case (Cons c ids)
  show ?case
  proof (cases "getDevice s c")
    case None
    with Cons show ?thesis by simp
  next
    case (Some client)
    show ?thesis
    proof (cases "ws_send s (ws client) m")
      case None
      with Some Cons.prems show ?thesis by simp
    next
      case (Some s1)
      with \<open>getDevice s c = Some client\<close> Cons.prems
      have "forEach_observer s1 ids m = (s', ok)" by simp
      from Cons.IH[OF this] ws_send_frame[OF Some] show ?thesis
        by (metis server.surjective server.update_convs(6))
    qed
  qed
qed

lemma notify_observers_frame:
  "notify_observers s cid m = (s', ok) \<Longrightarrow> s' = s\<lparr>sockets := sockets s'\<rparr>"
  by (auto simp: notify_observers_def split: option.splits if_splits dest: forEach_observer_frame)

lemma notify_observers_fields:
  assumes "notify_observers s cid m = (s', ok)"
  shows "devices s' = devices s" "activeCalls s' = activeCalls s"
    "callAudioChunks s' = callAudioChunks s" "callTranscriptions s' = callTranscriptions s"
    "callObservers s' = callObservers s" "speechCalls s' = speechCalls s" "timers s' = timers s"
proof -
  from notify_observers_frame[OF assms] obtain f where "s' = s\<lparr>sockets := f\<rparr>" ..
  then show "devices s' = devices s" "activeCalls s' = activeCalls s"
    "callAudioChunks s' = callAudioChunks s" "callTranscriptions s' = callTranscriptions s"
    "callObservers s' = callObservers s" "speechCalls s' = speechCalls s" "timers s' = timers s"
    by simp_all
qed

text \<open>When no socket of a registered observer throws, the loop visits every observer:
  each socket receives one copy of the message per registered observer that owns it,
  and the identifiers that are not registered contribute nothing.\<close>

lemma forEach_observer_writable:
  assumes "writable s ids"
  shows "\<exists>s'. forEach_observer s ids m = (s', True) \<and>
           (\<forall>r. sockets s' r =
                  (sockets s r)\<lparr>outbox := outbox (sockets s r) @ replicate (subscriptions s ids r) m\<rparr>)"
  using assms
proof (induction ids arbitrary: s)
  case Nil
  then show ?case by (simp add: subscriptions_def)
next
  case (Cons c ids)
  from Cons.prems have w: "writable s ids" by (simp add: writable_def)
  show ?case
  proof (cases "getDevice s c")
    case None
    with Cons.IH[OF w] show ?thesis by (simp add: subscriptions_def)
  next
    case (Some client)
    with Cons.prems have nt: "\<not> throwing (sockets s (ws client))" by (simp add: writable_def)
    define s1 where "s1 = s\<lparr>sockets := (sockets s)(ws client :=
        (sockets s (ws client))\<lparr>outbox := outbox (sockets s (ws client)) @ [m]\<rparr>)\<rparr>"
    have send: "ws_send s (ws client) m = Some s1"
      using ws_send_writable[OF nt] by (simp add: s1_def)
    have gd: "getDevice s1 = getDevice s" by (rule ext) (simp add: getDevice_def s1_def)
    have thr: "throwing (sockets s1 r) = throwing (sockets s r)" for r by (simp add: s1_def)
    have w1: "writable s1 ids" using w by (simp add: writable_def gd thr cong: option.case_cong)
    have subs: "subscriptions s1 ids = subscriptions s ids"
      by (rule ext) (simp add: subscriptions_def gd)
    from Cons.IH[OF w1] obtain s' where
      run: "forEach_observer s1 ids m = (s', True)" and
      box: "\<forall>r. sockets s' r =
                  (sockets s1 r)\<lparr>outbox := outbox (sockets s1 r) @ replicate (subscriptions s1 ids r) m\<rparr>"
      by blast
    have "forEach_observer s (c # ids) m = (s', True)" using Some send run by simp
    moreover have "sockets s' r =
        (sockets s r)\<lparr>outbox := outbox (sockets s r) @ replicate (subscriptions s (c # ids) r) m\<rparr>" for r
    proof -
      have box': "sockets s' r =
          (sockets s1 r)\<lparr>outbox := outbox (sockets s1 r) @ replicate (subscriptions s ids r) m\<rparr>"
        using box subs by simp
      have step: "subscriptions s (c # ids) r =
          (if ws client = r then Suc (subscriptions s ids r) else subscriptions s ids r)"
        using Some by (simp add: subscriptions_def)
      show ?thesis
        by (simp add: box' step s1_def replicate_app_Cons_same)
    qed
    ultimately show ?thesis by blast
  qed
qed

lemma notify_observers_writable:
  assumes "writable s (observers_of s cid)"
  shows "\<exists>s'. notify_observers s cid m = (s', True) \<and>
           (\<forall>r. sockets s' r =
                  (sockets s r)\<lparr>outbox := outbox (sockets s r) @
                     replicate (subscriptions s (observers_of s cid) r) m\<rparr>)"
proof (cases "map_of (callObservers s) cid")
  case None
  then show ?thesis by (simp add: notify_observers_def observers_of_def subscriptions_def)
next
  case (Some ids)
  with assms have "writable s ids" by (simp add: observers_of_def)
  from forEach_observer_writable[OF this, of m] Some show ?thesis
    by (cases ids) (auto simp: notify_observers_def observers_of_def subscriptions_def)
qed

lemma writable_eq:
  "devices s' = devices s \<Longrightarrow> (\<And>r. throwing (sockets s' r) = throwing (sockets s r)) \<Longrightarrow>
     writable s' ids = writable s ids"
  by (simp add: writable_def getDevice_def cong: option.case_cong)

subsection \<open>Registering a call identifier twice\<close>

text \<open>
  C1, as the code has it. \<open>registerCall\<close> has no duplicate check: whether or not the
  identifier is already in the store, it stores a fresh session (status \<open>ringing\<close>, empty
  transcript, start time now), an empty audio buffer and an empty transcription under it,
  replacing what was there, and leaves every other identifier's entries alone. It reports
  success with the fresh session; the only failure it can report is an exception thrown
  while the observers are notified, after the store has been written, and that cannot
  happen when no socket of a registered observer throws.
\<close>

theorem registerCall_replaces_session:
  "case registerCall s cid phone dev incoming now of
     (r, s') \<Rightarrow>
       (r = Inr (fresh_call cid phone dev incoming now) \<or> r = Inl Exception) \<and>
       (writable s (observers_of s cid) \<longrightarrow> r = Inr (fresh_call cid phone dev incoming now)) \<and>
       map_of (activeCalls s') cid = Some (fresh_call cid phone dev incoming now) \<and>
       map_of (callAudioChunks s') cid = Some [] \<and>
       map_of (callTranscriptions s') cid = Some [] \<and>
       (\<forall>other. other \<noteq> cid \<longrightarrow>
          map_of (activeCalls s') other = map_of (activeCalls s) other \<and>
          map_of (callAudioChunks s') other = map_of (callAudioChunks s) other \<and>
          map_of (callTranscriptions s') other = map_of (callTranscriptions s) other)"
proof -
  define c where "c = fresh_call cid phone dev incoming now"
  define s1 where "s1 = s\<lparr>activeCalls := AList.update cid c (activeCalls s),
      callAudioChunks := AList.update cid [] (callAudioChunks s),
      callTranscriptions := AList.update cid [] (callTranscriptions s)\<rparr>"
  define msg where "msg = Call_update cid (c\<lparr>transcript := None\<rparr>)"
  obtain s2 ok where b: "notify_observers s1 cid msg = (s2, ok)"
    by force
  have run: "registerCall s cid phone dev incoming now = (if ok then Inr c else Inl Exception, s2)"
    using b by (simp add: registerCall_def Let_def broadcastCallUpdate_def c_def s1_def msg_def fresh_call_def)
  have fields: "activeCalls s2 = AList.update cid c (activeCalls s)"
    "callAudioChunks s2 = AList.update cid [] (callAudioChunks s)"
    "callTranscriptions s2 = AList.update cid [] (callTranscriptions s)"
    using notify_observers_fields[OF b] by (simp_all add: s1_def)
  have ok: "ok" if w: "writable s (observers_of s cid)"
  proof -
    have "observers_of s1 cid = observers_of s cid" by (simp add: observers_of_def s1_def)
    moreover have "writable s1 ids = writable s ids" for ids
      by (rule writable_eq) (simp_all add: s1_def)
    ultimately have "writable s1 (observers_of s1 cid)" using w by simp
    from notify_observers_writable[OF this, of msg] b show ?thesis by auto
  qed
  show ?thesis
    unfolding run using ok by (simp add: fields update_conv' c_def)
qed

text \<open>
  Witness for C1: in the scenario \<open>dup_before\<close> the identifier \<open>c2\<close> is present and
  answered and its observer's socket accepts writes; registering \<open>c2\<close> again succeeds
  with a fresh session, and \<open>c1\<close> keeps its session.
\<close>

theorem registerCall_replaces_session_witness:
  "map_of (activeCalls dup_before) (Some ''c2'') =
     Some ((fresh_call (Some ''c2'') (Some ''+15551234567'') ''d1'' (Some True) 0)
             \<lparr>status := Some ''answered'', answeredAt := Some 1000\<rparr>) \<and>
   writable dup_before (observers_of dup_before (Some ''c2'')) \<and>
   fst (registerCall dup_before (Some ''c2'') (Some ''+15559999999'') ''d7'' None 2000) =
     Inr (fresh_call (Some ''c2'') (Some ''+15559999999'') ''d7'' None 2000) \<and>
   map_of (activeCalls (snd (registerCall dup_before (Some ''c2'') (Some ''+15559999999'') ''d7'' None 2000)))
     (Some ''c2'') = Some (fresh_call (Some ''c2'') (Some ''+15559999999'') ''d7'' None 2000) \<and>
   Some ''c1'' \<noteq> Some ''c2'' \<and>
   map_of (activeCalls (snd (registerCall dup_before (Some ''c2'') (Some ''+15559999999'') ''d7'' None 2000)))
     (Some ''c1'') = map_of (activeCalls dup_before) (Some ''c1'')"
proof -
  have p: "map_of (activeCalls dup_before) (Some ''c2'') =
     Some ((fresh_call (Some ''c2'') (Some ''+15551234567'') ''d1'' (Some True) 0)
             \<lparr>status := Some ''answered'', answeredAt := Some 1000\<rparr>)"
    by code_simp
  have w: "writable dup_before (observers_of dup_before (Some ''c2''))"
    by code_simp
  show ?thesis
    using p w registerCall_replaces_session
      [where s = dup_before and cid = "Some ''c2''" and phone = "Some ''+15559999999''"
         and dev = "''d7''" and incoming = None and now = 2000]
    by (simp add: case_prod_beta)
qed

text \<open>
  Counterexample to C1 as stated: \<open>c2\<close> is present and answered, and a second
  \<open>registerCall\<close> of \<open>c2\<close> two seconds after the first returns success, not a duplicate
  error, and the stored session is a new one (status \<open>ringing\<close> again, no \<open>answeredAt\<close>,
  start time 2000).
\<close>

theorem registerCall_duplicate_counterexample:
  "map_of (activeCalls dup_before) (Some ''c2'') =
     Some ((fresh_call (Some ''c2'') (Some ''+15551234567'') ''d1'' (Some True) 0)
             \<lparr>status := Some ''answered'', answeredAt := Some 1000\<rparr>) \<and>
   fst (registerCall dup_before (Some ''c2'') (Some ''+15551234567'') ''d1'' (Some True) 2000) =
     Inr (fresh_call (Some ''c2'') (Some ''+15551234567'') ''d1'' (Some True) 2000) \<and>
   map_of (activeCalls (snd (registerCall dup_before (Some ''c2'') (Some ''+15551234567'') ''d1'' (Some True) 2000)))
     (Some ''c2'') = Some (fresh_call (Some ''c2'') (Some ''+15551234567'') ''d1'' (Some True) 2000)"
  by code_simp

subsection \<open>What a status update does\<close>

lemma finalize_request_eq:
  "finalize_request s cid =
     (if map_of (activeCalls s) cid \<noteq> None \<and> length (trim (transcription_of s cid)) \<noteq> 0
      then (s\<lparr>speechCalls := speechCalls s @ [Summary_prompt cid (transcription_of s cid)]\<rparr>, True)
      else (s, False))"
  by (simp add: finalize_request_def transcription_of_def Let_def split: option.splits)

lemma observers_of_eq: "callObservers s' = callObservers s \<Longrightarrow> observers_of s' cid = observers_of s cid"
  by (simp add: observers_of_def)

lemma subscriptions_eq: "devices s' = devices s \<Longrightarrow> subscriptions s' ids r = subscriptions s ids r"
  by (simp add: subscriptions_def getDevice_def)

text \<open>Notifying the observers of a call whose registered observers all have sockets
  that accept the write.\<close>

lemma notify_observers_delivers:
  assumes "writable s (observers_of s cid)"
    and "devices s1 = devices s" and "callObservers s1 = callObservers s"
    and "sockets s1 = sockets s"
    and "notify_observers s1 cid m = (s2, ok)"
  shows "ok \<and> (\<forall>r. sockets s2 r = (sockets s r)\<lparr>outbox := outbox (sockets s r) @
                     replicate (subscriptions s (observers_of s cid) r) m\<rparr>)"
proof -
  have "writable s1 (observers_of s1 cid)"
    using assms(1) writable_eq[of s1 s] observers_of_eq[of s1 s] assms(2,3,4) by simp
  from notify_observers_writable[OF this, of m] assms(5)
  have "ok" and "\<forall>r. sockets s2 r = (sockets s1 r)\<lparr>outbox := outbox (sockets s1 r) @
                     replicate (subscriptions s1 (observers_of s1 cid) r) m\<rparr>"
    by auto
  then show ?thesis
    using subscriptions_eq[OF assms(2)] observers_of_eq[OF assms(3)] assms(4) by simp
qed

lemma finalize_resume_present:
  assumes "map_of (activeCalls s) cid = Some c"
  shows "\<exists>ok f. finalize_resume s cid a now =
           s\<lparr>activeCalls := AList.update cid (c\<lparr>summary := Some a\<rparr>) (activeCalls s),
             sockets := f,
             timers := timers s @ (if ok then [(now + 60000, cid)] else [])\<rparr> \<and>
           (writable s (observers_of s cid) \<longrightarrow>
              ok \<and> (\<forall>r. f r = (sockets s r)\<lparr>outbox := outbox (sockets s r) @
                     replicate (subscriptions s (observers_of s cid) r) (Call_summary cid a now)\<rparr>))"
proof -
  define s1 where "s1 = s\<lparr>activeCalls := AList.update cid (c\<lparr>summary := Some a\<rparr>) (activeCalls s)\<rparr>"
  obtain s2 ok where b: "notify_observers s1 cid (Call_summary cid a now) = (s2, ok)" by force
  from notify_observers_frame[OF b] have s2: "s2 = s1\<lparr>sockets := sockets s2\<rparr>" .
  have run: "finalize_resume s cid a now = (if ok then s2\<lparr>timers := timers s2 @ [(now + 60000, cid)]\<rparr> else s2)"
    using assms b by (simp add: finalize_resume_def Let_def broadcastCallSummary_def s1_def)
  have eq: "finalize_resume s cid a now =
           s\<lparr>activeCalls := AList.update cid (c\<lparr>summary := Some a\<rparr>) (activeCalls s),
             sockets := sockets s2,
             timers := timers s @ (if ok then [(now + 60000, cid)] else [])\<rparr>"
    unfolding run by (subst (1 2 3) s2) (simp add: s1_def)
  have "ok \<and> (\<forall>r. sockets s2 r = (sockets s r)\<lparr>outbox := outbox (sockets s r) @
                     replicate (subscriptions s (observers_of s cid) r) (Call_summary cid a now)\<rparr>)"
    if w: "writable s (observers_of s cid)"
    by (rule notify_observers_delivers[OF w _ _ _ b]) (simp_all add: s1_def)
  with eq show ?thesis by blast
qed

lemma updateCallStatus_absent:
  "map_of (activeCalls s) cid = None \<Longrightarrow> updateCallStatus s cid st now a = (Inl Call_not_found, s)"
  by (simp add: updateCallStatus_def)

lemma updateCallStatus_present:
  assumes "map_of (activeCalls s) cid = Some c0"
  shows "\<exists>ok ok2 f.
     updateCallStatus s cid st now a =
       (if ok then Inr (set_status c0 st now) else Inl Exception,
        s\<lparr>activeCalls := AList.update cid
              (if st = Some ''ended'' \<and> length (trim (transcription_of s cid)) \<noteq> 0
               then (set_status c0 st now)\<lparr>summary := Some a\<rparr> else set_status c0 st now)
              (activeCalls s),
          sockets := f,
          speechCalls := speechCalls s @
              (if st = Some ''ended'' \<and> length (trim (transcription_of s cid)) \<noteq> 0
               then [Summary_prompt cid (transcription_of s cid)] else []),
          timers := timers s @
              (if st = Some ''ended'' \<and> length (trim (transcription_of s cid)) \<noteq> 0 \<and> ok2
               then [(now + 60000, cid)] else [])\<rparr>) \<and>
     (writable s (observers_of s cid) \<longrightarrow>
        ok \<and> ok2 \<and>
        (\<forall>r. f r = (sockets s r)\<lparr>outbox := outbox (sockets s r) @
            replicate (subscriptions s (observers_of s cid) r)
              (Call_update cid ((set_status c0 st now)\<lparr>transcript := None\<rparr>)) @
            (if st = Some ''ended'' \<and> length (trim (transcription_of s cid)) \<noteq> 0
             then replicate (subscriptions s (observers_of s cid) r) (Call_summary cid a now)
             else [])\<rparr>))"
proof -
  define c2 where "c2 = set_status c0 st now"
  define req where "req \<longleftrightarrow> st = Some ''ended'' \<and> length (trim (transcription_of s cid)) \<noteq> 0"
  define k where "k = subscriptions s (observers_of s cid)"
  define upd where "upd = Call_update cid (c2\<lparr>transcript := None\<rparr>)"
  define s1 where "s1 = s\<lparr>activeCalls := AList.update cid c2 (activeCalls s)\<rparr>"
  define s2 where "s2 = (if req then s1\<lparr>speechCalls := speechCalls s1 @ [Summary_prompt cid (transcription_of s cid)]\<rparr> else s1)"
  have fr: "finalize_request s1 cid = (s2, req)" if "st = Some ''ended''"
    using that by (simp add: finalize_request_eq s1_def s2_def req_def update_conv' transcription_of_def)
  have nfr: "s2 = s1 \<and> \<not> req" if "st \<noteq> Some ''ended''"
    using that by (simp add: s2_def req_def)
  obtain s3 ok where b: "notify_observers s2 cid upd = (s3, ok)"
    by force
  from notify_observers_frame[OF b] have s3: "s3 = s2\<lparr>sockets := sockets s3\<rparr>" .
  have run: "updateCallStatus s cid st now a =
      (if ok then Inr c2 else Inl Exception, if req then finalize_resume s3 cid a now else s3)"
  proof (cases "st = Some ''ended''")
    case True
    from fr[OF True] assms b show ?thesis
      unfolding c2_def s1_def upd_def
      by (simp add: updateCallStatus_def Let_def broadcastCallUpdate_def True)
  next
    case False
    from nfr[OF False] assms b show ?thesis
      unfolding c2_def s1_def upd_def
      by (simp add: updateCallStatus_def Let_def broadcastCallUpdate_def False)
  qed
  have pres3: "map_of (activeCalls s3) cid = Some c2"
    by (subst s3) (simp add: s2_def s1_def update_conv')
  from finalize_resume_present[OF pres3, of a now] obtain ok2 f where
    res: "finalize_resume s3 cid a now =
           s3\<lparr>activeCalls := AList.update cid (c2\<lparr>summary := Some a\<rparr>) (activeCalls s3),
             sockets := f,
             timers := timers s3 @ (if ok2 then [(now + 60000, cid)] else [])\<rparr>"
    and ok2: "writable s3 (observers_of s3 cid) \<longrightarrow>
              ok2 \<and> (\<forall>r. f r = (sockets s3 r)\<lparr>outbox := outbox (sockets s3 r) @
                     replicate (subscriptions s3 (observers_of s3 cid) r) (Call_summary cid a now)\<rparr>)"
    by blast
  have same3: "devices s3 = devices s" "callObservers s3 = callObservers s"
    using notify_observers_fields[OF b] by (simp_all add: s2_def s1_def)
  have good: "ok \<and> ok2 \<and>
      (\<forall>r. (if req then f else sockets s3) r = (sockets s r)\<lparr>outbox := outbox (sockets s r) @
            replicate (k r) upd @ (if req then replicate (k r) (Call_summary cid a now) else [])\<rparr>)"
    if w: "writable s (observers_of s cid)"
  proof -
    have d: "ok \<and> (\<forall>r. sockets s3 r = (sockets s r)\<lparr>outbox := outbox (sockets s r) @
                     replicate (subscriptions s (observers_of s cid) r) upd\<rparr>)"
      by (rule notify_observers_delivers[OF w _ _ _ b]) (simp_all add: s2_def s1_def)
    then have thr3: "throwing (sockets s3 r) = throwing (sockets s r)" for r by simp
    have "writable s3 (observers_of s3 cid)"
      using w writable_eq[of s3 s, OF same3(1) thr3] observers_of_eq[OF same3(2)] by simp
    with ok2 have ok2': "ok2" and f: "\<And>r. f r = (sockets s3 r)\<lparr>outbox := outbox (sockets s3 r) @
                     replicate (subscriptions s3 (observers_of s3 cid) r) (Call_summary cid a now)\<rparr>"
      by simp_all
    have "f r = (sockets s r)\<lparr>outbox := outbox (sockets s r) @
            replicate (k r) upd @ replicate (k r) (Call_summary cid a now)\<rparr>" for r
      using d by (simp add: f subscriptions_eq[OF same3(1)] observers_of_eq[OF same3(2)] k_def)
    with d ok2' show ?thesis by (simp add: k_def)
  qed
  have "updateCallStatus s cid st now a =
       (if ok then Inr c2 else Inl Exception,
        s\<lparr>activeCalls := AList.update cid (if req then c2\<lparr>summary := Some a\<rparr> else c2) (activeCalls s),
          sockets := (if req then f else sockets s3),
          speechCalls := speechCalls s @ (if req then [Summary_prompt cid (transcription_of s cid)] else []),
          timers := timers s @ (if req \<and> ok2 then [(now + 60000, cid)] else [])\<rparr>)"
    unfolding run res by (subst (1 2 3 4 5) s3) (simp add: s2_def s1_def)
  with good show ?thesis unfolding c2_def req_def conj_assoc k_def upd_def by blast
qed


lemma status_set_status [simp]: "status (set_status c0 st now) = st"
  by (simp add: set_status_def Let_def)

subsection \<open>Status updates are not checked against a state machine\<close>

text \<open>
  C2, as the code has it. \<open>updateCallStatus\<close> compares the new status with nothing: for
  a call that is not in the store it fails with \<open>Call not found\<close> and changes nothing;
  for a call that is in the store it stores whatever status it is given, whatever the
  current one, so that a reader (\<open>getCall\<close>) sees exactly the last status supplied. It
  returns the updated call; the only failure it can report for a stored call is an
  exception thrown while the observers are notified (after the status was stored), which
  cannot happen when no socket of a registered observer throws. No invalid-transition
  error exists.
\<close>

theorem updateCallStatus_accepts_any_status:
  "(map_of (activeCalls s) cid = None \<longrightarrow>
      updateCallStatus s cid newStatus now answer = (Inl Call_not_found, s)) \<and>
   (map_of (activeCalls s) cid \<noteq> None \<longrightarrow>
      (case updateCallStatus s cid newStatus now answer of
         (r, s') \<Rightarrow>
           map_option status (getCall s' cid) = Some newStatus \<and>
           (case r of Inl e \<Rightarrow> e = Exception | Inr c \<Rightarrow> status c = newStatus) \<and>
           (writable s (observers_of s cid) \<longrightarrow> (\<exists>c. r = Inr c \<and> status c = newStatus))))"
proof (cases "map_of (activeCalls s) cid")
  case None
  then show ?thesis by (simp add: updateCallStatus_absent)
next
  case (Some c0)
  from updateCallStatus_present[OF Some, of newStatus now answer] show ?thesis
    using Some by (auto simp: getCall_def update_conv')
qed

text \<open>
  Witness for C2: in scenario A after the call has ended, an update of the unknown call
  \<open>c9\<close> fails with \<open>Call not found\<close>, and an update of \<open>c1\<close> from \<open>ended\<close> back to
  \<open>ringing\<close> is stored and returned.
\<close>

theorem updateCallStatus_accepts_any_status_witness:
  "map_of (activeCalls ended_c1) (Some ''c9'') = None \<and>
   updateCallStatus ended_c1 (Some ''c9'') (Some ''answered'') 46000 [] = (Inl Call_not_found, ended_c1) \<and>
   map_of (activeCalls ended_c1) (Some ''c1'') \<noteq> None \<and>
   map_option status (getCall ended_c1 (Some ''c1'')) = Some (Some ''ended'') \<and>
   writable ended_c1 (observers_of ended_c1 (Some ''c1'')) \<and>
   map_option status
     (getCall (snd (updateCallStatus ended_c1 (Some ''c1'') (Some ''ringing'') 46000 [])) (Some ''c1''))
     = Some (Some ''ringing'') \<and>
   (\<exists>c. fst (updateCallStatus ended_c1 (Some ''c1'') (Some ''ringing'') 46000 []) = Inr c \<and>
        status c = Some ''ringing'')"
proof -
  have a: "map_of (activeCalls ended_c1) (Some ''c9'') = None" by code_simp
  have p: "map_of (activeCalls ended_c1) (Some ''c1'') \<noteq> None" by code_simp
  have e: "map_option status (getCall ended_c1 (Some ''c1'')) = Some (Some ''ended'')" by code_simp
  have w: "writable ended_c1 (observers_of ended_c1 (Some ''c1''))" by code_simp
  from a updateCallStatus_accepts_any_status
      [where s = ended_c1 and cid = "Some ''c9''" and newStatus = "Some ''answered''"
         and now = 46000 and answer = "[]"]
  have "updateCallStatus ended_c1 (Some ''c9'') (Some ''answered'') 46000 [] = (Inl Call_not_found, ended_c1)"
    by blast
  moreover from p w updateCallStatus_accepts_any_status
      [where s = ended_c1 and cid = "Some ''c1''" and newStatus = "Some ''ringing''"
         and now = 46000 and answer = "[]"]
  have "map_option status
     (getCall (snd (updateCallStatus ended_c1 (Some ''c1'') (Some ''ringing'') 46000 [])) (Some ''c1''))
     = Some (Some ''ringing'') \<and>
   (\<exists>c. fst (updateCallStatus ended_c1 (Some ''c1'') (Some ''ringing'') 46000 []) = Inr c \<and>
        status c = Some ''ringing'')"
    by (simp add: case_prod_beta)
  ultimately show ?thesis using a p e w by blast
qed

text \<open>
  Counterexample to C2 as stated: \<open>c1\<close> has status \<open>ended\<close>; an update to
  \<open>in_progress\<close> one second later succeeds, and a reader then observes \<open>in_progress\<close>
  after \<open>ended\<close>.
\<close>

theorem updateCallStatus_backward_counterexample:
  "map_option status (getCall ended_c1 (Some ''c1'')) = Some (Some ''ended'') \<and>
   map_sum id status (fst (updateCallStatus ended_c1 (Some ''c1'') (Some ''in_progress'') 46000 []))
     = Inr (Some ''in_progress'') \<and>
   map_option status
     (getCall (snd (updateCallStatus ended_c1 (Some ''c1'') (Some ''in_progress'') 46000 [])) (Some ''c1''))
     = Some (Some ''in_progress'')"
  by code_simp


lemma updateCallStatus_stored:
  assumes "map_of (activeCalls s) cid = Some c0"
  shows "\<exists>summ. getCall (snd (updateCallStatus s cid st now a)) cid =
           Some ((set_status c0 st now)\<lparr>summary := summ\<rparr>)"
proof -
  from updateCallStatus_present[OF assms, of st now a] obtain ok ok2 f where
    "updateCallStatus s cid st now a =
       (if ok then Inr (set_status c0 st now) else Inl Exception,
        s\<lparr>activeCalls := AList.update cid
              (if st = Some ''ended'' \<and> length (trim (transcription_of s cid)) \<noteq> 0
               then (set_status c0 st now)\<lparr>summary := Some a\<rparr> else set_status c0 st now)
              (activeCalls s),
          sockets := f,
          speechCalls := speechCalls s @
              (if st = Some ''ended'' \<and> length (trim (transcription_of s cid)) \<noteq> 0
               then [Summary_prompt cid (transcription_of s cid)] else []),
          timers := timers s @
              (if st = Some ''ended'' \<and> length (trim (transcription_of s cid)) \<noteq> 0 \<and> ok2
               then [(now + 60000, cid)] else [])\<rparr>)"
    by blast
  then have "getCall (snd (updateCallStatus s cid st now a)) cid =
      Some ((set_status c0 st now)\<lparr>summary :=
         (if st = Some ''ended'' \<and> length (trim (transcription_of s cid)) \<noteq> 0
          then Some a else summary (set_status c0 st now))\<rparr>)"
    by (simp add: getCall_def update_conv')
  then show ?thesis ..
qed

lemma registerCall_stored:
  "getCall (snd (registerCall s cid phone dev incoming now)) cid = Some (fresh_call cid phone dev incoming now)"
proof -
  obtain s2 ok where "notify_observers
      (s\<lparr>activeCalls := AList.update cid (fresh_call cid phone dev incoming now) (activeCalls s),
         callAudioChunks := AList.update cid [] (callAudioChunks s),
         callTranscriptions := AList.update cid [] (callTranscriptions s)\<rparr>) cid
      (Call_update cid ((fresh_call cid phone dev incoming now)\<lparr>transcript := None\<rparr>)) = (s2, ok)"
    by force
  from this notify_observers_fields(2)[OF this] show ?thesis
    by (simp add: registerCall_def Let_def broadcastCallUpdate_def fresh_call_def getCall_def update_conv')
qed

lemma round_seconds_whole: "round_seconds (1000 * n) = n"
  by (simp add: round_seconds_def)

subsection \<open>Timestamps and duration\<close>

text \<open>
  C4, as the code has it. Registration stores status \<open>ringing\<close>. For a call in the
  store, an update to \<open>answered\<close> sets \<open>answeredAt\<close> to the time of the update, and every
  update to \<open>ended\<close> (a repeated one too) sets \<open>endedAt\<close> to the time of that update and
  computes the duration anew, as \<open>Math.round\<close> of the milliseconds from \<open>answeredAt\<close> (if
  set, otherwise \<open>startTime\<close>) to \<open>endedAt\<close>, divided by 1000. An \<open>ended\<close> update a whole
  number \<open>n\<close> of seconds after \<open>answeredAt\<close> therefore yields duration \<open>n\<close> (42 for 42
  seconds).
\<close>

theorem call_timestamps_and_duration:
  "map_option status (getCall (snd (registerCall s cid phone dev incoming now)) cid) = Some (Some ''ringing'') \<and>
   (\<forall>c0. map_of (activeCalls s) cid = Some c0 \<longrightarrow>
      map_option answeredAt (getCall (snd (updateCallStatus s cid (Some ''answered'') now answer)) cid)
        = Some (Some now) \<and>
      map_option endedAt (getCall (snd (updateCallStatus s cid (Some ''ended'') now answer)) cid)
        = Some (Some now) \<and>
      map_option duration (getCall (snd (updateCallStatus s cid (Some ''ended'') now answer)) cid)
        = Some (Some (round_seconds (now - (case answeredAt c0 of Some t \<Rightarrow> t | None \<Rightarrow> startTime c0)))) \<and>
      (\<forall>n. answeredAt c0 = Some (now - 1000 * n) \<longrightarrow>
         map_option duration (getCall (snd (updateCallStatus s cid (Some ''ended'') now answer)) cid)
           = Some (Some n)))"
proof -
  have reg: "map_option status (getCall (snd (registerCall s cid phone dev incoming now)) cid) = Some (Some ''ringing'')"
    by (simp add: registerCall_stored fresh_call_def)
  have upd: "map_option answeredAt (getCall (snd (updateCallStatus s cid (Some ''answered'') now answer)) cid)
        = Some (Some now) \<and>
      map_option endedAt (getCall (snd (updateCallStatus s cid (Some ''ended'') now answer)) cid)
        = Some (Some now) \<and>
      map_option duration (getCall (snd (updateCallStatus s cid (Some ''ended'') now answer)) cid)
        = Some (Some (round_seconds (now - (case answeredAt c0 of Some t \<Rightarrow> t | None \<Rightarrow> startTime c0))))"
    if p: "map_of (activeCalls s) cid = Some c0" for c0
  proof -
    from updateCallStatus_stored[OF p, of "Some ''answered''" now answer] obtain x where
      "getCall (snd (updateCallStatus s cid (Some ''answered'') now answer)) cid =
         Some ((set_status c0 (Some ''answered'') now)\<lparr>summary := x\<rparr>)" ..
    moreover from updateCallStatus_stored[OF p, of "Some ''ended''" now answer] obtain y where
      "getCall (snd (updateCallStatus s cid (Some ''ended'') now answer)) cid =
         Some ((set_status c0 (Some ''ended'') now)\<lparr>summary := y\<rparr>)" ..
    ultimately show ?thesis by (simp add: set_status_def Let_def cong: option.case_cong)
  qed
  have whole: "map_option duration (getCall (snd (updateCallStatus s cid (Some ''ended'') now answer)) cid)
           = Some (Some n)"
    if p: "map_of (activeCalls s) cid = Some c0" and a: "answeredAt c0 = Some (now - 1000 * n)" for c0 n
    using upd[OF p] a round_seconds_whole[of n] by simp
  from reg upd whole show ?thesis by blast
qed


text \<open>
  Witness for C4, scenario A: \<open>c1\<close> is registered (\<open>ringing\<close>), answered at 3 s
  (\<open>answeredAt = 3000\<close>) and ended at 45 s, 42 seconds after it was answered:
  \<open>endedAt = 45000\<close> and \<open>duration = 42\<close>.
\<close>

theorem call_timestamps_and_duration_witness:
  "map_option status (getCall ringing_c1 (Some ''c1'')) = Some (Some ''ringing'') \<and>
   map_of (activeCalls ringing_c1) (Some ''c1'') =
     Some (fresh_call (Some ''c1'') (Some ''+15551234567'') ''d1'' (Some True) 0) \<and>
   map_option answeredAt (getCall answered_c1 (Some ''c1'')) = Some (Some 3000) \<and>
   map_of (activeCalls answered_c1) (Some ''c1'') =
     Some ((fresh_call (Some ''c1'') (Some ''+15551234567'') ''d1'' (Some True) 0)
             \<lparr>status := Some ''answered'', answeredAt := Some 3000\<rparr>) \<and>
   map_option endedAt (getCall ended_c1 (Some ''c1'')) = Some (Some 45000) \<and>
   map_option duration (getCall ended_c1 (Some ''c1'')) = Some (Some 42)"
proof -
  let ?c = "fresh_call (Some ''c1'') (Some ''+15551234567'') ''d1'' (Some True) 0"
  have r: "map_of (activeCalls ringing_c1) (Some ''c1'') = Some ?c" by code_simp
  have a: "map_of (activeCalls answered_c1) (Some ''c1'') =
     Some (?c\<lparr>status := Some ''answered'', answeredAt := Some 3000\<rparr>)" by code_simp
  have n: "answeredAt (?c\<lparr>status := Some ''answered'', answeredAt := Some 3000\<rparr>) = Some (45000 - 1000 * 42)"
    by simp
  from call_timestamps_and_duration
    [where s = new_server and cid = "Some ''c1''" and phone = "Some ''+15551234567''"
       and dev = "''d1''" and incoming = "Some True" and now = 0]
  have 1: "map_option status (getCall ringing_c1 (Some ''c1'')) = Some (Some ''ringing'')"
    unfolding ringing_c1_def by blast
  from r call_timestamps_and_duration
    [where s = ringing_c1 and cid = "Some ''c1''" and now = 3000 and answer = "[]"]
  have 2: "map_option answeredAt (getCall answered_c1 (Some ''c1'')) = Some (Some 3000)"
    unfolding answered_c1_def by blast
  from a n call_timestamps_and_duration
    [where s = answered_c1 and cid = "Some ''c1''" and now = 45000 and answer = "[]"]
  have 3: "map_option endedAt (getCall ended_c1 (Some ''c1'')) = Some (Some 45000) \<and>
     map_option duration (getCall ended_c1 (Some ''c1'')) = Some (Some 42)"
    unfolding ended_c1_def by blast
  from 1 2 3 r a show ?thesis by blast
qed

text \<open>
  Counterexample to C4 as stated (the duration is computed exactly once): after the
  \<open>ended\<close> update of scenario A the duration is 42; a second \<open>ended\<close> update at 50 s
  overwrites \<open>endedAt\<close> and computes the duration again, now 47.
\<close>

theorem duration_recomputed_counterexample:
  "map_option endedAt (getCall ended_c1 (Some ''c1'')) = Some (Some 45000) \<and>
   map_option duration (getCall ended_c1 (Some ''c1'')) = Some (Some 42) \<and>
   map_option endedAt
     (getCall (snd (updateCallStatus ended_c1 (Some ''c1'') (Some ''ended'') 50000 [])) (Some ''c1''))
     = Some (Some 50000) \<and>
   map_option duration
     (getCall (snd (updateCallStatus ended_c1 (Some ''c1'') (Some ''ended'') 50000 [])) (Some ''c1''))
     = Some (Some 47)"
  by code_simp

subsection \<open>Finalization at every ended update\<close>

text \<open>
  C3, as the code has it. There is no one-shot guard: every \<open>ended\<close> update of a call
  that is in the store and whose transcription is not blank runs the finalize step once
  more, whatever the call's status was before (\<open>ended\<close> included). It requests a summary
  of the full transcription and stores the answer on the call; the call stays in the
  store with the same transcription, so the next \<open>ended\<close> update finalizes again. When
  no socket of a registered observer throws, it also broadcasts the summary (after the
  call update) to every registered observer and schedules one more cleanup 60 s later.
\<close>

theorem ended_update_finalizes_each_time:
  "\<forall>c0. map_of (activeCalls s) cid = Some c0 \<and> length (trim (transcription_of s cid)) \<noteq> 0 \<longrightarrow>
     (case updateCallStatus s cid (Some ''ended'') now answer of
        (r, s') \<Rightarrow>
          speechCalls s' = speechCalls s @ [Summary_prompt cid (transcription_of s cid)] \<and>
          map_option summary (getCall s' cid) = Some (Some answer) \<and>
          getCall s' cid \<noteq> None \<and>
          transcription_of s' cid = transcription_of s cid \<and>
          (writable s (observers_of s cid) \<longrightarrow>
             writable s' (observers_of s' cid) \<and>
             timers s' = timers s @ [(now + 60000, cid)] \<and>
             (\<forall>w. outbox (sockets s' w) = outbox (sockets s w) @
                replicate (subscriptions s (observers_of s cid) w)
                  (Call_update cid ((set_status c0 (Some ''ended'') now)\<lparr>transcript := None\<rparr>)) @
                replicate (subscriptions s (observers_of s cid) w) (Call_summary cid answer now))))"
proof (intro allI impI, elim conjE)
  fix c0
  assume p: "map_of (activeCalls s) cid = Some c0"
    and t: "length (trim (transcription_of s cid)) \<noteq> 0"
  let ?c2 = "set_status c0 (Some ''ended'') now"
  from updateCallStatus_present[OF p, of "Some ''ended''" now answer] t obtain ok ok2 f where
    run: "updateCallStatus s cid (Some ''ended'') now answer =
       (if ok then Inr ?c2 else Inl Exception,
        s\<lparr>activeCalls := AList.update cid (?c2\<lparr>summary := Some answer\<rparr>) (activeCalls s),
          sockets := f,
          speechCalls := speechCalls s @ [Summary_prompt cid (transcription_of s cid)],
          timers := timers s @ (if ok2 then [(now + 60000, cid)] else [])\<rparr>)"
    and good: "writable s (observers_of s cid) \<longrightarrow>
        ok \<and> ok2 \<and>
        (\<forall>r. f r = (sockets s r)\<lparr>outbox := outbox (sockets s r) @
            replicate (subscriptions s (observers_of s cid) r) (Call_update cid (?c2\<lparr>transcript := None\<rparr>)) @
            replicate (subscriptions s (observers_of s cid) r) (Call_summary cid answer now)\<rparr>)"
    by auto
  define s' where "s' = snd (updateCallStatus s cid (Some ''ended'') now answer)"
  have s': "s' = s\<lparr>activeCalls := AList.update cid (?c2\<lparr>summary := Some answer\<rparr>) (activeCalls s),
          sockets := f,
          speechCalls := speechCalls s @ [Summary_prompt cid (transcription_of s cid)],
          timers := timers s @ (if ok2 then [(now + 60000, cid)] else [])\<rparr>"
    by (simp add: s'_def run)
  have basic: "speechCalls s' = speechCalls s @ [Summary_prompt cid (transcription_of s cid)]"
    "map_option summary (getCall s' cid) = Some (Some answer)"
    "getCall s' cid \<noteq> None" "transcription_of s' cid = transcription_of s cid"
    by (simp_all add: s' getCall_def update_conv' transcription_of_def)
  have deliver: "writable s' (observers_of s' cid) \<and>
             timers s' = timers s @ [(now + 60000, cid)] \<and>
             (\<forall>w. outbox (sockets s' w) = outbox (sockets s w) @
                replicate (subscriptions s (observers_of s cid) w)
                  (Call_update cid (?c2\<lparr>transcript := None\<rparr>)) @
                replicate (subscriptions s (observers_of s cid) w) (Call_summary cid answer now))"
    if w: "writable s (observers_of s cid)"
  proof -
    from good w have ok2 and f: "\<And>r. f r = (sockets s r)\<lparr>outbox := outbox (sockets s r) @
            replicate (subscriptions s (observers_of s cid) r) (Call_update cid (?c2\<lparr>transcript := None\<rparr>)) @
            replicate (subscriptions s (observers_of s cid) r) (Call_summary cid answer now)\<rparr>"
      by simp_all
    have "writable s' (observers_of s' cid)"
      using w writable_eq[of s' s] observers_of_eq[of s' s] by (simp add: s' f)
    then show ?thesis using \<open>ok2\<close> by (simp add: s' f)
  qed
  show "case updateCallStatus s cid (Some ''ended'') now answer of
        (r, s') \<Rightarrow>
          speechCalls s' = speechCalls s @ [Summary_prompt cid (transcription_of s cid)] \<and>
          map_option summary (getCall s' cid) = Some (Some answer) \<and>
          getCall s' cid \<noteq> None \<and>
          transcription_of s' cid = transcription_of s cid \<and>
          (writable s (observers_of s cid) \<longrightarrow>
             writable s' (observers_of s' cid) \<and>
             timers s' = timers s @ [(now + 60000, cid)] \<and>
             (\<forall>w. outbox (sockets s' w) = outbox (sockets s w) @
                replicate (subscriptions s (observers_of s cid) w)
                  (Call_update cid ((set_status c0 (Some ''ended'') now)\<lparr>transcript := None\<rparr>)) @
                replicate (subscriptions s (observers_of s cid) w) (Call_summary cid answer now)))"
    using basic deliver unfolding s'_def by (simp add: case_prod_beta del: map_option_eq_Some)
qed


text \<open>
  Witness for C3: in \<open>ended_once\<close> the call \<open>c1\<close> already has status \<open>ended\<close> and a
  transcription; the second \<open>ended\<close> update requests a second summary, stores it,
  schedules a second cleanup and sends the observer a second summary message.
\<close>

theorem ended_update_finalizes_each_time_witness:
  "map_option status (getCall ended_once (Some ''c1'')) = Some (Some ''ended'') \<and>
   length (trim (transcription_of ended_once (Some ''c1''))) \<noteq> 0 \<and>
   writable ended_once (observers_of ended_once (Some ''c1'')) \<and>
   speechCalls ended_twice =
     speechCalls ended_once @ [Summary_prompt (Some ''c1'') (transcription_of ended_once (Some ''c1''))] \<and>
   map_option summary (getCall ended_twice (Some ''c1'')) = Some (Some ''second summary'') \<and>
   timers ended_twice = timers ended_once @ [(66000, Some ''c1'')] \<and>
   subscriptions ended_once (observers_of ended_once (Some ''c1'')) 7 = 1 \<and>
   drop (Suc (length (outbox (sockets ended_once 7)))) (outbox (sockets ended_twice 7)) =
     [Call_summary (Some ''c1'') ''second summary'' 6000]"
proof -
  define c0 where "c0 = (fresh_call (Some ''c1'') (Some ''+15551234567'') ''d1'' (Some True) 0)
     \<lparr>status := Some ''ended'', transcript := Some '' hello'', endedAt := Some 5000,
      duration := Some 5, summary := Some ''first summary''\<rparr>"
  have p: "map_of (activeCalls ended_once) (Some ''c1'') = Some c0"
    unfolding c0_def by code_simp
  have e: "status c0 = Some ''ended''" by (simp add: c0_def)
  have t: "length (trim (transcription_of ended_once (Some ''c1''))) \<noteq> 0" by code_simp
  have w: "writable ended_once (observers_of ended_once (Some ''c1''))" by code_simp
  have k: "subscriptions ended_once (observers_of ended_once (Some ''c1'')) 7 = 1" by code_simp
  from p t w ended_update_finalizes_each_time
    [where s = ended_once and cid = "Some ''c1''" and now = 6000 and answer = "''second summary''"]
  have "speechCalls ended_twice =
     speechCalls ended_once @ [Summary_prompt (Some ''c1'') (transcription_of ended_once (Some ''c1''))] \<and>
   map_option summary (getCall ended_twice (Some ''c1'')) = Some (Some ''second summary'') \<and>
   timers ended_twice = timers ended_once @ [(66000, Some ''c1'')] \<and>
   outbox (sockets ended_twice 7) = outbox (sockets ended_once 7) @
                replicate (subscriptions ended_once (observers_of ended_once (Some ''c1'')) 7)
                  (Call_update (Some ''c1'') ((set_status c0 (Some ''ended'') 6000)\<lparr>transcript := None\<rparr>)) @
                replicate (subscriptions ended_once (observers_of ended_once (Some ''c1'')) 7)
                  (Call_summary (Some ''c1'') ''second summary'' 6000)"
    unfolding ended_twice_def by (simp add: case_prod_beta del: map_option_eq_Some)
  with p e t w k show ?thesis by (simp add: getCall_def del: map_option_eq_Some)
qed

text \<open>
  Counterexample to C3 as stated: two \<open>ended\<close> updates of \<open>c1\<close>, at 5 s and at 6 s,
  leave two summary requests in the log of the speech capability, two scheduled cleanups
  and two summary messages in the observer's outbox.
\<close>

theorem finalize_twice_counterexample:
  "map_option status (getCall ended_once (Some ''c1'')) = Some (Some ''ended'') \<and>
   speechCalls ended_once =
     [Chunk_prompt (Some ''c1'') 1 (Some ''+15551234567''), Delta_prompt (Some ''c1'') ''hello'',
      Summary_prompt (Some ''c1'') '' hello''] \<and>
   timers ended_once = [(65000, Some ''c1'')] \<and>
   speechCalls ended_twice =
     [Chunk_prompt (Some ''c1'') 1 (Some ''+15551234567''), Delta_prompt (Some ''c1'') ''hello'',
      Summary_prompt (Some ''c1'') '' hello'', Summary_prompt (Some ''c1'') '' hello''] \<and>
   timers ended_twice = [(65000, Some ''c1''), (66000, Some ''c1'')] \<and>
   drop 4 (outbox (sockets ended_once 7)) = [Call_summary (Some ''c1'') ''first summary'' 5000] \<and>
   drop 6 (outbox (sockets ended_twice 7)) = [Call_summary (Some ''c1'') ''second summary'' 6000]"
  by code_simp


subsection \<open>Audio fragments and transcription attempts\<close>

lemma processTranscriptForResponse_frame:
  "\<exists>f. processTranscriptForResponse s cid text now reply =
     s\<lparr>sockets := f,
       speechCalls := speechCalls s @ (if map_of (activeCalls s) cid = None then [] else [Delta_prompt cid text])\<rparr>"
proof (cases "map_of (activeCalls s) cid")
  case None
  then have "processTranscriptForResponse s cid text now reply = s\<lparr>sockets := sockets s, speechCalls := speechCalls s @ []\<rparr>"
    by (simp add: processTranscriptForResponse_def)
  with None show ?thesis by (metis (full_types))
next
  case (Some c)
  define s1 where "s1 = s\<lparr>speechCalls := speechCalls s @ [Delta_prompt cid text]\<rparr>"
  have goal: "\<exists>f. x = s\<lparr>sockets := f, speechCalls := speechCalls s @ [Delta_prompt cid text]\<rparr>"
    if "x = s1\<lparr>sockets := g\<rparr>" for x g
    using that by (intro exI[where x = g]) (simp add: s1_def)
  have s1: "s1 = s1\<lparr>sockets := sockets s1\<rparr>" by simp
  show ?thesis
  proof (cases "reply = []")
    case True
    with Some have "processTranscriptForResponse s cid text now reply = s1"
      by (simp add: processTranscriptForResponse_def Let_def s1_def)
    with goal[of _ "sockets s1"] Some show ?thesis by simp
  next
    case False
    define sent where "sent = (case getDevice s1 (deviceId c) of
                            None \<Rightarrow> Some s1
                          | Some dev \<Rightarrow> ws_send s1 (ws dev) (Call_command cid ''speak'' reply))"
    have run: "processTranscriptForResponse s cid text now reply =
        (case sent of None \<Rightarrow> s1 | Some s2 \<Rightarrow> fst (broadcastAiResponse s2 cid reply now))"
      using Some False unfolding sent_def s1_def
      by (simp add: processTranscriptForResponse_def Let_def)
    show ?thesis
    proof (cases sent)
      case None
      with run goal[of _ "sockets s1"] Some show ?thesis by simp
    next
      case (Some s2)
      then have s2: "s2 = s1\<lparr>sockets := sockets s2\<rparr>"
        by (auto simp: sent_def split: option.splits dest: ws_send_frame)
      obtain s3 ok where b: "notify_observers s2 cid (Call_ai_response cid reply now) = (s3, ok)" by force
      from notify_observers_frame[OF b] s2 have "s3 = s1\<lparr>sockets := sockets s3\<rparr>"
        by (metis server.surjective server.update_convs(6))
      moreover have "processTranscriptForResponse s cid text now reply = s3"
        using run Some b by (simp add: broadcastAiResponse_def)
      ultimately show ?thesis using goal[of _ "sockets s3"] \<open>map_of (activeCalls s) cid = Some c\<close> by simp
    qed
  qed
qed


lemma processCallAudio_absent:
  "map_of (activeCalls s) cid = None \<Longrightarrow>
     processCallAudio s cid audio now heard reply = (Inl Call_not_found, s)"
  by (simp add: processCallAudio_def)

lemma processCallAudio_present:
  assumes "map_of (activeCalls s) cid = Some c"
  shows "\<exists>ok f. processCallAudio s cid (Some audio) now heard reply =
     (if ok then Inr () else Inl Exception,
      s\<lparr>activeCalls :=
          (if Suc (length (chunks_of s cid)) mod 20 = 0 \<or> length (chunks_of s cid) = 0
           then AList.update cid
                  (c\<lparr>transcript := Some ((case transcript c of None \<Rightarrow> [] | Some t \<Rightarrow> t) @ '' '' @
                         (if heard = [] then ''Unintelligible audio'' else heard))\<rparr>)
                  (activeCalls s)
           else activeCalls s),
        callAudioChunks := AList.update cid (chunks_of s cid @ [audio]) (callAudioChunks s),
        callTranscriptions :=
          (if Suc (length (chunks_of s cid)) mod 20 = 0 \<or> length (chunks_of s cid) = 0
           then AList.update cid
                  ((case transcript c of None \<Rightarrow> [] | Some t \<Rightarrow> t) @ '' '' @
                     (if heard = [] then ''Unintelligible audio'' else heard))
                  (callTranscriptions s)
           else callTranscriptions s),
        sockets := f,
        speechCalls := speechCalls s @
          (if Suc (length (chunks_of s cid)) mod 20 = 0 \<or> length (chunks_of s cid) = 0
           then Chunk_prompt cid (Suc (length (chunks_of s cid))) (phoneNumber c) #
                (if ok then [Delta_prompt cid (if heard = [] then ''Unintelligible audio'' else heard)]
                 else [])
           else [])\<rparr>)"
proof -
  define n where "n = Suc (length (chunks_of s cid))"
  define attempt where "attempt \<longleftrightarrow> n mod 20 = 0 \<or> length (chunks_of s cid) = 0"
  define said where "said = (if heard = [] then ''Unintelligible audio'' else heard)"
  define whole where "whole = (case transcript c of None \<Rightarrow> [] | Some t \<Rightarrow> t) @ '' '' @ said"
  define s1 where "s1 = s\<lparr>callAudioChunks := AList.update cid (chunks_of s cid @ [audio]) (callAudioChunks s)\<rparr>"
  have push: "(case map_of (callAudioChunks s) cid of
                 Some chunks \<Rightarrow> s\<lparr>callAudioChunks := AList.update cid (chunks @ [audio]) (callAudioChunks s)\<rparr>
               | None \<Rightarrow> s\<lparr>callAudioChunks := AList.update cid [audio] (callAudioChunks s)\<rparr>) = s1"
    by (simp add: s1_def chunks_of_def split: option.splits)
  have nonempty: "said \<noteq> []" by (simp add: said_def)
  have guard: "(length (chunks_of s cid @ [audio]) mod 20 \<noteq> 0 \<and> 1 < length (chunks_of s cid @ [audio])) \<longleftrightarrow> \<not> attempt"
    by (auto simp: attempt_def n_def)
  have tr: "processAudioForTranscription s1 cid heard =
      (if attempt then (s1\<lparr>speechCalls := speechCalls s1 @ [Chunk_prompt cid n (phoneNumber c)]\<rparr>, Some said)
       else (s1, None))"
    using assms guard
    by (simp add: processAudioForTranscription_def s1_def update_conv' Let_def said_def n_def)
  show ?thesis
  proof (cases attempt)
    case False
    with assms push tr have "processCallAudio s cid (Some audio) now heard reply = (Inr (), s1)"
      by (simp add: processCallAudio_def Let_def)
    then have "processCallAudio s cid (Some audio) now heard reply =
        (if True then Inr () else Inl Exception,
         s\<lparr>activeCalls := activeCalls s,
           callAudioChunks := AList.update cid (chunks_of s cid @ [audio]) (callAudioChunks s),
           callTranscriptions := callTranscriptions s,
           sockets := sockets s,
           speechCalls := speechCalls s @ []\<rparr>)"
      by (simp add: s1_def)
    with False show ?thesis
      unfolding attempt_def n_def by (intro exI[where x = True] exI[where x = "sockets s"]) simp
  next
    case True
    define s2 where "s2 = s1\<lparr>speechCalls := speechCalls s1 @ [Chunk_prompt cid n (phoneNumber c)]\<rparr>"
    define s3 where "s3 = s2\<lparr>activeCalls := AList.update cid (c\<lparr>transcript := Some whole\<rparr>) (activeCalls s2),
                              callTranscriptions := AList.update cid whole (callTranscriptions s2)\<rparr>"
    obtain s4 ok where b: "notify_observers s3 cid (Call_transcript cid said False now) = (s4, ok)"
      by force
    from notify_observers_frame[OF b] have s4: "s4 = s3\<lparr>sockets := sockets s4\<rparr>" .
    have p4: "map_of (activeCalls s4) cid \<noteq> None"
      by (subst s4) (simp add: s3_def update_conv')
    from processTranscriptForResponse_frame[of s4 cid said now reply] p4 obtain g where
      g: "processTranscriptForResponse s4 cid said now reply =
            s4\<lparr>sockets := g, speechCalls := speechCalls s4 @ [Delta_prompt cid said]\<rparr>"
      by auto
    have run: "processCallAudio s cid (Some audio) now heard reply =
        (if ok then (Inr (), processTranscriptForResponse s4 cid said now reply) else (Inl Exception, s4))"
      using assms push tr True nonempty b[unfolded s3_def s2_def whole_def]
      by (simp add: processCallAudio_def Let_def broadcastTranscriptionUpdate_def)
    have "processCallAudio s cid (Some audio) now heard reply =
        (if ok then Inr () else Inl Exception,
         s\<lparr>activeCalls := AList.update cid (c\<lparr>transcript := Some whole\<rparr>) (activeCalls s),
           callAudioChunks := AList.update cid (chunks_of s cid @ [audio]) (callAudioChunks s),
           callTranscriptions := AList.update cid whole (callTranscriptions s),
           sockets := (if ok then g else sockets s4),
           speechCalls := speechCalls s @
             (Chunk_prompt cid n (phoneNumber c) # (if ok then [Delta_prompt cid said] else []))\<rparr>)"
      unfolding run g by (subst (1 2 3 4) s4) (simp add: s3_def s2_def s1_def)
    with True show ?thesis
      unfolding attempt_def n_def whole_def said_def
      by (intro exI[where x = ok] exI[where x = "if ok then g else sockets s4"]) simp
  qed
qed


lemma processCallAudio_step:
  assumes "map_of (activeCalls s) cid \<noteq> None"
  shows "map_of (activeCalls (snd (processCallAudio s cid (Some audio) now heard reply))) cid \<noteq> None"
    and "chunks_of (snd (processCallAudio s cid (Some audio) now heard reply)) cid = chunks_of s cid @ [audio]"
    and "transcription_attempts (snd (processCallAudio s cid (Some audio) now heard reply)) cid =
           transcription_attempts s cid +
           (if chunks_of s cid = [] \<or> Suc (length (chunks_of s cid)) mod 20 = 0 then 1 else 0)"
proof -
  from assms obtain c where c: "map_of (activeCalls s) cid = Some c" by auto
  from processCallAudio_present[OF c, of audio now heard reply] obtain ok f where
    run: "processCallAudio s cid (Some audio) now heard reply =
     (if ok then Inr () else Inl Exception,
      s\<lparr>activeCalls :=
          (if Suc (length (chunks_of s cid)) mod 20 = 0 \<or> length (chunks_of s cid) = 0
           then AList.update cid
                  (c\<lparr>transcript := Some ((case transcript c of None \<Rightarrow> [] | Some t \<Rightarrow> t) @ '' '' @
                         (if heard = [] then ''Unintelligible audio'' else heard))\<rparr>)
                  (activeCalls s)
           else activeCalls s),
        callAudioChunks := AList.update cid (chunks_of s cid @ [audio]) (callAudioChunks s),
        callTranscriptions :=
          (if Suc (length (chunks_of s cid)) mod 20 = 0 \<or> length (chunks_of s cid) = 0
           then AList.update cid
                  ((case transcript c of None \<Rightarrow> [] | Some t \<Rightarrow> t) @ '' '' @
                     (if heard = [] then ''Unintelligible audio'' else heard))
                  (callTranscriptions s)
           else callTranscriptions s),
        sockets := f,
        speechCalls := speechCalls s @
          (if Suc (length (chunks_of s cid)) mod 20 = 0 \<or> length (chunks_of s cid) = 0
           then Chunk_prompt cid (Suc (length (chunks_of s cid))) (phoneNumber c) #
                (if ok then [Delta_prompt cid (if heard = [] then ''Unintelligible audio'' else heard)]
                 else [])
           else [])\<rparr>)"
    by blast
  show "map_of (activeCalls (snd (processCallAudio s cid (Some audio) now heard reply))) cid \<noteq> None"
    unfolding run using c by (simp add: update_conv')
  show "chunks_of (snd (processCallAudio s cid (Some audio) now heard reply)) cid = chunks_of s cid @ [audio]"
    unfolding run by (simp add: chunks_of_def update_conv')
  show "transcription_attempts (snd (processCallAudio s cid (Some audio) now heard reply)) cid =
           transcription_attempts s cid +
           (if chunks_of s cid = [] \<or> Suc (length (chunks_of s cid)) mod 20 = 0 then 1 else 0)"
    unfolding run by (auto simp: transcription_attempts_def)
qed

lemma ingest_append: "ingest s cid (fs @ gs) = ingest (ingest s cid fs) cid gs"
  by (induction s cid fs rule: ingest.induct) simp_all

lemma ingest_snoc:
  "ingest s cid (fs @ [(audio, now, heard, reply)]) =
     snd (processCallAudio (ingest s cid fs) cid (Some audio) now heard reply)"
  by (simp add: ingest_append)

lemma attempts_closed_form:
  "(if n = 0 then 0 else 1 + n div 20) + (if n = 0 \<or> Suc n mod 20 = 0 then 1 else 0) = 1 + Suc n div (20::nat)"
  by (cases "n = 0") (auto simp: div_Suc)

lemma ingest_fresh:
  assumes "map_of (activeCalls s) cid \<noteq> None" and "chunks_of s cid = []"
  shows "map_of (activeCalls (ingest s cid fs)) cid \<noteq> None \<and>
         chunks_of (ingest s cid fs) cid = map fst fs \<and>
         transcription_attempts (ingest s cid fs) cid =
           transcription_attempts s cid + (if fs = [] then 0 else 1 + length fs div 20)"
proof (induction fs rule: rev_induct)
  case Nil
  from assms show ?case by simp
next
  case (snoc x fs)
  obtain audio now heard reply where x: "x = (audio, now, heard, reply)" by (cases x) auto
  from snoc have p: "map_of (activeCalls (ingest s cid fs)) cid \<noteq> None"
    and b: "chunks_of (ingest s cid fs) cid = map fst fs"
    and a: "transcription_attempts (ingest s cid fs) cid =
           transcription_attempts s cid + (if fs = [] then 0 else 1 + length fs div 20)"
    by simp_all
  have e: "(chunks_of (ingest s cid fs) cid = []) = (length fs = 0)" by (simp add: b)
  have l: "length (chunks_of (ingest s cid fs) cid) = length fs" by (simp add: b)
  have "transcription_attempts (ingest s cid (fs @ [x])) cid =
      transcription_attempts s cid + ((if length fs = 0 then 0 else 1 + length fs div 20) +
        (if length fs = 0 \<or> Suc (length fs) mod 20 = 0 then 1 else 0))"
    unfolding x ingest_snoc processCallAudio_step(3)[OF p] a e l by simp
  then have "transcription_attempts (ingest s cid (fs @ [x])) cid =
      transcription_attempts s cid + (1 + Suc (length fs) div 20)"
    unfolding attempts_closed_form .
  moreover have "map_of (activeCalls (ingest s cid (fs @ [x]))) cid \<noteq> None"
    unfolding x ingest_snoc by (rule processCallAudio_step(1)[OF p])
  moreover have "chunks_of (ingest s cid (fs @ [x])) cid = map fst (fs @ [x])"
    unfolding x ingest_snoc processCallAudio_step(2)[OF p] b by simp
  ultimately show ?case by simp
qed

lemma registerCall_fresh_buffer:
  "map_of (activeCalls (snd (registerCall s cid phone dev incoming now))) cid \<noteq> None"
  "chunks_of (snd (registerCall s cid phone dev incoming now)) cid = []"
  "transcription_attempts (snd (registerCall s cid phone dev incoming now)) k = transcription_attempts s k"
proof -
  obtain s2 ok where b: "notify_observers
      (s\<lparr>activeCalls := AList.update cid (fresh_call cid phone dev incoming now) (activeCalls s),
         callAudioChunks := AList.update cid [] (callAudioChunks s),
         callTranscriptions := AList.update cid [] (callTranscriptions s)\<rparr>) cid
      (Call_update cid ((fresh_call cid phone dev incoming now)\<lparr>transcript := None\<rparr>)) = (s2, ok)"
    by force
  then have run: "snd (registerCall s cid phone dev incoming now) = s2"
    by (simp add: registerCall_def Let_def broadcastCallUpdate_def fresh_call_def)
  from notify_observers_fields[OF b]
  show "map_of (activeCalls (snd (registerCall s cid phone dev incoming now))) cid \<noteq> None"
    "chunks_of (snd (registerCall s cid phone dev incoming now)) cid = []"
    "transcription_attempts (snd (registerCall s cid phone dev incoming now)) k = transcription_attempts s k"
    unfolding run by (simp_all add: chunks_of_def transcription_attempts_def update_conv')
qed

text \<open>
  C5, as the code has it. The guard of \<open>processAudioForTranscription\<close> lets the first
  fragment through (\<open>audioChunks.length > 1\<close> is false for it) as well as every 20th. For
  a freshly registered call the fragments are buffered in the order received; after \<open>n\<close>
  fragments, \<open>n > 0\<close>, there have been \<open>1 + n div 20\<close> transcription attempts; and the
  fragment received when \<open>k\<close> fragments are buffered triggers an attempt exactly when it
  is the first (\<open>k = 0\<close>) or makes the buffer a multiple of 20 long. So the fragments
  f1 .. f19 trigger one attempt, at f1, and the 20th triggers exactly one more.
\<close>

theorem transcription_on_first_and_every_20th:
  "chunks_of (ingest (snd (registerCall s0 cid phone dev incoming t0)) cid fs) cid = map fst fs \<and>
   transcription_attempts (ingest (snd (registerCall s0 cid phone dev incoming t0)) cid fs) cid =
     transcription_attempts s0 cid + (if fs = [] then 0 else 1 + length fs div 20) \<and>
   transcription_attempts
       (snd (processCallAudio (ingest (snd (registerCall s0 cid phone dev incoming t0)) cid fs)
               cid (Some audio) now heard aiResponse)) cid =
     transcription_attempts (ingest (snd (registerCall s0 cid phone dev incoming t0)) cid fs) cid +
     (if length fs = 0 \<or> Suc (length fs) mod 20 = 0 then 1 else 0)"
proof -
  let ?s = "snd (registerCall s0 cid phone dev incoming t0)"
  from ingest_fresh[OF registerCall_fresh_buffer(1,2), of s0 cid phone dev incoming t0 fs]
  have p: "map_of (activeCalls (ingest ?s cid fs)) cid \<noteq> None"
    and b: "chunks_of (ingest ?s cid fs) cid = map fst fs"
    and a: "transcription_attempts (ingest ?s cid fs) cid =
           transcription_attempts s0 cid + (if fs = [] then 0 else 1 + length fs div 20)"
    by (simp_all add: registerCall_fresh_buffer(3))
  from processCallAudio_step(3)[OF p, of audio now heard aiResponse] b
  have "transcription_attempts (snd (processCallAudio (ingest ?s cid fs) cid (Some audio) now heard aiResponse)) cid =
     transcription_attempts (ingest ?s cid fs) cid +
     (if length fs = 0 \<or> Suc (length fs) mod 20 = 0 then 1 else 0)"
    by simp
  with a b show ?thesis by blast
qed


text \<open>
  Scenario B for C5: 19 fragments for the freshly registered \<open>c1\<close> are buffered in
  order with one transcription attempt, and the 20th fragment brings the second.
\<close>

theorem transcription_on_first_and_every_20th_witness:
  "chunks_of (ingest ringing_c1 (Some ''c1'') (replicate 19 (''QUJD'', 1000, ''hello'', ''hi''))) (Some ''c1'')
     = replicate 19 ''QUJD'' \<and>
   transcription_attempts (ingest ringing_c1 (Some ''c1'') (replicate 19 (''QUJD'', 1000, ''hello'', ''hi'')))
     (Some ''c1'') = 1 \<and>
   transcription_attempts
     (snd (processCallAudio (ingest ringing_c1 (Some ''c1'') (replicate 19 (''QUJD'', 1000, ''hello'', ''hi'')))
             (Some ''c1'') (Some ''QUJD'') 2000 ''hello again'' ''hi''))
     (Some ''c1'') = 2"
proof -
  have z: "transcription_attempts new_server (Some ''c1'') = 0"
    by (simp add: transcription_attempts_def new_server_def)
  from transcription_on_first_and_every_20th
    [where ?s0.0 = new_server and cid = "Some ''c1''" and phone = "Some ''+15551234567''"
       and dev = "''d1''" and incoming = "Some True" and ?t0.0 = 0
       and fs = "replicate 19 (''QUJD'', 1000, ''hello'', ''hi'')"
       and audio = "''QUJD''" and now = 2000 and heard = "''hello again''" and aiResponse = "''hi''"]
  show ?thesis
    unfolding ringing_c1_def[symmetric] by (simp add: z)
qed

text \<open>
  Counterexample to C5 as stated: the first fragment of the freshly registered \<open>c1\<close>
  is transcribed at once (the speech capability is called with the prompt for chunk 1),
  so after the fragments f1 .. f19 there has been one transcription attempt, not none.
\<close>

theorem first_fragment_transcribed_counterexample:
  "transcription_attempts ringing_c1 (Some ''c1'') = 0 \<and>
   speechCalls (snd (processCallAudio ringing_c1 (Some ''c1'') (Some ''QUJD'') 1000 ''hello'' ''hi'')) =
     [Chunk_prompt (Some ''c1'') 1 (Some ''+15551234567''), Delta_prompt (Some ''c1'') ''hello''] \<and>
   transcription_attempts (ingest ringing_c1 (Some ''c1'') (replicate 19 (''QUJD'', 1000, ''hello'', ''hi'')))
     (Some ''c1'') = 1"
proof -
  have a: "transcription_attempts ringing_c1 (Some ''c1'') = 0" by code_simp
  have b: "speechCalls (snd (processCallAudio ringing_c1 (Some ''c1'') (Some ''QUJD'') 1000 ''hello'' ''hi'')) =
     [Chunk_prompt (Some ''c1'') 1 (Some ''+15551234567''), Delta_prompt (Some ''c1'') ''hello'']"
    by code_simp
  have p: "map_of (activeCalls ringing_c1) (Some ''c1'') \<noteq> None" by code_simp
  have e: "chunks_of ringing_c1 (Some ''c1'') = []" by code_simp
  from ingest_fresh[OF p e, of "replicate 19 (''QUJD'', 1000, ''hello'', ''hi'')"] a
  have "transcription_attempts (ingest ringing_c1 (Some ''c1'') (replicate 19 (''QUJD'', 1000, ''hello'', ''hi'')))
     (Some ''c1'') = 1"
    by simp
  with a b show ?thesis by blast
qed


subsection \<open>Closing a connection\<close>

text \<open>
  C6, as the code has it. The \<open>close\<close> handler only calls \<open>unregisterDevice\<close>: the
  connection is removed from the registry, every other connection's registry entry is
  unchanged, and nothing else of the server changes; in particular every per-call
  observer set is left as it was, also those that contain the closed connection.
\<close>

theorem ws_on_close_leaves_observers:
  "getDevice (ws_on_close s connectionId) connectionId = None \<and>
   (\<forall>other. other \<noteq> connectionId \<longrightarrow>
      getDevice (ws_on_close s connectionId) other = getDevice s other) \<and>
   callObservers (ws_on_close s connectionId) = callObservers s \<and>
   ws_on_close s connectionId = s\<lparr>devices := AList.delete connectionId (devices s)\<rparr>"
proof -
  have "ws_on_close s connectionId = s\<lparr>devices := AList.delete connectionId (devices s)\<rparr>"
  proof (cases "map_of (devices s) connectionId")
    case None
    then have "connectionId \<notin> fst ` set (devices s)" by (simp add: map_of_eq_None_iff)
    then have "AList.delete connectionId (devices s) = devices s" by simp
    with None show ?thesis by (simp add: ws_on_close_def unregisterDevice_def)
  next
    case (Some d)
    then show ?thesis by (simp add: ws_on_close_def unregisterDevice_def)
  qed
  then show ?thesis by (simp add: getDevice_def delete_conv')
qed

text \<open>
  Witness for C6: closing \<open>o1\<close> removes it from the registry, keeps the entry of the
  other connection \<open>d1\<close>, and leaves the observer sets unchanged.
\<close>

theorem ws_on_close_leaves_observers_witness:
  "getDevice observed_c1 ''o1'' \<noteq> None \<and>
   getDevice (ws_on_close observed_c1 ''o1'') ''o1'' = None \<and>
   ''d1'' \<noteq> ''o1'' \<and>
   getDevice (ws_on_close observed_c1 ''o1'') ''d1'' = getDevice observed_c1 ''d1'' \<and>
   getDevice observed_c1 ''d1'' \<noteq> None \<and>
   callObservers (ws_on_close observed_c1 ''o1'') = callObservers observed_c1"
proof -
  have a: "getDevice observed_c1 ''o1'' \<noteq> None" by code_simp
  have b: "getDevice observed_c1 ''d1'' \<noteq> None" by code_simp
  note th = ws_on_close_leaves_observers[of observed_c1 "''o1''"]
  have 1: "getDevice (ws_on_close observed_c1 ''o1'') ''o1'' = None"
    by (rule th[THEN conjunct1])
  have 2: "getDevice (ws_on_close observed_c1 ''o1'') ''d1'' = getDevice observed_c1 ''d1''"
    by (rule th[THEN conjunct2, THEN conjunct1, rule_format]) simp
  have 3: "callObservers (ws_on_close observed_c1 ''o1'') = callObservers observed_c1"
    by (rule th[THEN conjunct2, THEN conjunct2, THEN conjunct1])
  from a b 1 2 3 show ?thesis by simp
qed

text \<open>
  Counterexample to C6 as stated: \<open>o1\<close> observes \<open>c1\<close>; after its connection has been
  closed it is gone from the registry but still a member of the observer set of \<open>c1\<close>.
\<close>

theorem observer_not_pruned_counterexample:
  "observers_of observed_c1 (Some ''c1'') = [''o1''] \<and>
   getDevice (ws_on_close observed_c1 ''o1'') ''o1'' = None \<and>
   observers_of (ws_on_close observed_c1 ''o1'') (Some ''c1'') = [''o1'']"
  by code_simp

subsection \<open>Listing the calls after the cleanup\<close>

lemma cleanup_fold_frame:
  "fold (\<lambda>(t, cid) s'. cleanupCall s' cid) ts s =
     s\<lparr>callAudioChunks := fold (\<lambda>(t, cid). AList.delete cid) ts (callAudioChunks s)\<rparr>"
  by (induction ts arbitrary: s) (auto simp: cleanupCall_def)

lemma fold_delete_None:
  "cid \<in> snd ` set ts \<Longrightarrow> map_of (fold (\<lambda>(t, cid). AList.delete cid) ts al) cid = None"
proof (induction ts arbitrary: al)
  case Nil
  then show ?case by simp
next
  case (Cons x ts)
  obtain t c where x: "x = (t, c)" by (cases x)
  show ?case
  proof (cases "cid \<in> snd ` set ts")
    case True
    with Cons.IH show ?thesis by (simp add: x)
  next
    case False
    with Cons.prems have c: "c = cid" by (auto simp: x)
    have keep: "map_of (fold (\<lambda>(t, cid). AList.delete cid) ts al') cid = None"
      if "map_of al' cid = None" for al'
      using that by (induction ts arbitrary: al') (auto simp: delete_conv')
    have "map_of (AList.delete cid al) cid = None" by (simp add: delete_conv')
    from keep[OF this] show ?thesis by (simp add: x c)
  qed
qed

lemma getCall_listed: "getCall s cid = Some c \<Longrightarrow> c \<in> set (getActiveCalls s)"
  unfolding getCall_def getActiveCalls_def by (drule map_of_SomeD) force

lemma fire_timers_frame:
  "fire_timers s now =
     s\<lparr>callAudioChunks := fold (\<lambda>(t, cid). AList.delete cid)
          (filter (\<lambda>(t, cid). t \<le> now) (timers s)) (callAudioChunks s),
       timers := filter (\<lambda>(t, cid). \<not> t \<le> now) (timers s)\<rparr>"
  by (simp add: fire_timers_def cleanup_fold_frame)

text \<open>
  C9, as the code has it. \<open>getActiveCalls\<close> returns every session of the store,
  whatever its status: one entry for each identifier stored, and the session that
  \<open>getCall\<close> finds under an identifier is among them. The cleanup that runs 60 s after
  the finalization deletes the audio buffer of the call and nothing else: running the
  timers that are due removes them from the pending ones, leaves each of their calls
  without audio buffer, and does not change what \<open>getActiveCalls\<close> returns. So a stored
  call that is updated to \<open>ended\<close> is listed with status \<open>ended\<close> from then on, however
  much later the timers run.
\<close>

theorem getActiveCalls_keeps_ended_calls:
  "getActiveCalls (cleanupCall s cid) = getActiveCalls s \<and>
   getActiveCalls (fire_timers s now) = getActiveCalls s \<and>
   (\<forall>t. (t, cid) \<in> set (timers s) \<and> t \<le> now \<longrightarrow>
      map_of (callAudioChunks (fire_timers s now)) cid = None) \<and>
   timers (fire_timers s now) = filter (\<lambda>(t, cid). \<not> t \<le> now) (timers s) \<and>
   length (getActiveCalls s) = length (map fst (activeCalls s)) \<and>
   (\<forall>c. getCall s cid = Some c \<longrightarrow>
      c \<in> set (getActiveCalls s) \<and>
      c \<in> set (getActiveCalls (cleanupCall s cid)) \<and>
      c \<in> set (getActiveCalls (fire_timers s now))) \<and>
   (\<forall>c0. getCall s cid = Some c0 \<longrightarrow>
      (\<exists>c. getCall (fire_timers (snd (updateCallStatus s cid (Some ''ended'') now answer)) later) cid
             = Some c \<and>
           c \<in> set (getActiveCalls
                  (fire_timers (snd (updateCallStatus s cid (Some ''ended'') now answer)) later)) \<and>
           callId c = callId c0 \<and> status c = Some ''ended'' \<and> endedAt c = Some now))"
proof -
  have "map_of (callAudioChunks (fire_timers s now)) cid = None"
    if "(t, cid) \<in> set (timers s)" "t \<le> now" for t
  proof -
    from that have "cid \<in> snd ` set (filter (\<lambda>(t, cid). t \<le> now) (timers s))" by force
    from fold_delete_None[OF this] show ?thesis by (simp add: fire_timers_frame)
  qed
  then have due: "\<forall>t. (t, cid) \<in> set (timers s) \<and> t \<le> now \<longrightarrow>
      map_of (callAudioChunks (fire_timers s now)) cid = None"
    by blast
  have clean: "getActiveCalls (cleanupCall s cid) = getActiveCalls s"
    by (simp add: getActiveCalls_def cleanupCall_def)
  have fire: "getActiveCalls (fire_timers s' t) = getActiveCalls s'" for s' t
    by (simp add: fire_timers_frame getActiveCalls_def)
  have pending: "timers (fire_timers s now) = filter (\<lambda>(t, cid). \<not> t \<le> now) (timers s)"
    by (simp add: fire_timers_frame)
  have count: "length (getActiveCalls s) = length (map fst (activeCalls s))"
    by (simp add: getActiveCalls_def)
  have listed: "\<forall>c. getCall s cid = Some c \<longrightarrow>
      c \<in> set (getActiveCalls s) \<and>
      c \<in> set (getActiveCalls (cleanupCall s cid)) \<and>
      c \<in> set (getActiveCalls (fire_timers s now))"
    by (simp add: clean fire getCall_listed)
  have ended: "\<exists>c. getCall (fire_timers (snd (updateCallStatus s cid (Some ''ended'') now answer)) later) cid
             = Some c \<and>
           c \<in> set (getActiveCalls
                  (fire_timers (snd (updateCallStatus s cid (Some ''ended'') now answer)) later)) \<and>
           callId c = callId c0 \<and> status c = Some ''ended'' \<and> endedAt c = Some now"
    if "getCall s cid = Some c0" for c0
  proof -
    define s1 where "s1 = snd (updateCallStatus s cid (Some ''ended'') now answer)"
    from that have "map_of (activeCalls s) cid = Some c0" by (simp add: getCall_def)
    from updateCallStatus_stored[OF this, of "Some ''ended''" now answer]
    obtain summ where g: "getCall s1 cid = Some ((set_status c0 (Some ''ended'') now)\<lparr>summary := summ\<rparr>)"
      unfolding s1_def by blast
    have same: "getCall (fire_timers s1 later) cid = getCall s1 cid"
      by (simp add: fire_timers_frame getCall_def)
    from g same have "getCall (fire_timers s1 later) cid =
        Some ((set_status c0 (Some ''ended'') now)\<lparr>summary := summ\<rparr>)"
      by simp
    moreover from this have "(set_status c0 (Some ''ended'') now)\<lparr>summary := summ\<rparr>
        \<in> set (getActiveCalls (fire_timers s1 later))"
      by (rule getCall_listed)
    moreover have "callId ((set_status c0 (Some ''ended'') now)\<lparr>summary := summ\<rparr>) = callId c0"
      "status ((set_status c0 (Some ''ended'') now)\<lparr>summary := summ\<rparr>) = Some ''ended''"
      "endedAt ((set_status c0 (Some ''ended'') now)\<lparr>summary := summ\<rparr>) = Some now"
      by (simp_all add: set_status_def Let_def)
    ultimately show ?thesis unfolding s1_def by blast
  qed
  from due clean fire[of s now] pending count listed ended show ?thesis by blast
qed


text \<open>
  Witness for C9: the call \<open>c1\<close> has ended at 5 s and the cleanup of \<open>c1\<close> is due at
  65 s; when it runs, the audio buffer of \<open>c1\<close> is deleted and the list of calls stays
  the same: the session of \<open>c1\<close>, with status \<open>ended\<close>, is in it before and after the
  cleanup. A second \<open>ended\<close> update at 65 s and the timers at 125 s leave \<open>c1\<close> listed
  too, as ended at 65 s.
\<close>

theorem getActiveCalls_keeps_ended_calls_witness:
  "(65000, Some ''c1'') \<in> set (timers ended_once) \<and> (65000::int) \<le> 65000 \<and>
   map_of (callAudioChunks ended_once) (Some ''c1'') = Some [''QUJD''] \<and>
   map_of (callAudioChunks (fire_timers ended_once 65000)) (Some ''c1'') = None \<and>
   getActiveCalls (fire_timers ended_once 65000) = getActiveCalls ended_once \<and>
   map status (getActiveCalls ended_once) = [Some ''ended''] \<and>
   map_option status (getCall ended_once (Some ''c1'')) = Some (Some ''ended'') \<and>
   the (getCall ended_once (Some ''c1'')) \<in> set (getActiveCalls (fire_timers ended_once 65000)) \<and>
   (\<exists>c. c \<in> set (getActiveCalls
            (fire_timers (snd (updateCallStatus ended_once (Some ''c1'') (Some ''ended'') 65000 ''again''))
               125000)) \<and>
        callId c = Some ''c1'' \<and> status c = Some ''ended'' \<and> endedAt c = Some 65000)"
proof -
  have a: "(65000, Some ''c1'') \<in> set (timers ended_once)" by code_simp
  have b: "map_of (callAudioChunks ended_once) (Some ''c1'') = Some [''QUJD'']" by code_simp
  have c: "map status (getActiveCalls ended_once) = [Some ''ended'']" by code_simp
  have d: "map_option status (getCall ended_once (Some ''c1'')) = Some (Some ''ended'')" by code_simp
  have i: "map_option callId (getCall ended_once (Some ''c1'')) = Some (Some ''c1'')" by code_simp
  from d obtain c0 where g: "getCall ended_once (Some ''c1'') = Some c0" by auto
  with i have i0: "callId c0 = Some ''c1''" by simp
  note th = getActiveCalls_keeps_ended_calls
    [where s = ended_once and cid = "Some ''c1''" and now = 65000 and answer = "''again''"
       and later = 125000]
  have 1: "getActiveCalls (fire_timers ended_once 65000) = getActiveCalls ended_once"
    by (rule th[THEN conjunct2, THEN conjunct1])
  have 2: "map_of (callAudioChunks (fire_timers ended_once 65000)) (Some ''c1'') = None"
    by (rule th[THEN conjunct2, THEN conjunct2, THEN conjunct1, rule_format, of 65000]) (simp add: a)
  have 3: "c0 \<in> set (getActiveCalls (fire_timers ended_once 65000))"
    using th[THEN conjunct2, THEN conjunct2, THEN conjunct2, THEN conjunct2, THEN conjunct2,
             THEN conjunct1, rule_format, OF g]
    by simp
  have 4: "\<exists>c. c \<in> set (getActiveCalls
            (fire_timers (snd (updateCallStatus ended_once (Some ''c1'') (Some ''ended'') 65000 ''again''))
               125000)) \<and>
        callId c = Some ''c1'' \<and> status c = Some ''ended'' \<and> endedAt c = Some 65000"
    using th[THEN conjunct2, THEN conjunct2, THEN conjunct2, THEN conjunct2, THEN conjunct2,
             THEN conjunct2, rule_format, OF g] i0
    by auto
  from a b c d 1 2 3 4 g show ?thesis by simp
qed

text \<open>
  Counterexample to C9 as stated: \<open>c1\<close> ended at 5 s; at 65 s the grace window has
  elapsed, the cleanup has run (no timer is pending, the audio buffer is gone), and
  \<open>getActiveCalls\<close> still returns the session of \<open>c1\<close> with status \<open>ended\<close>.
\<close>

theorem ended_call_still_listed_counterexample:
  "map (\<lambda>c. (callId c, status c, endedAt c)) (getActiveCalls grace_elapsed) =
     [(Some ''c1'', Some ''ended'', Some 5000)] \<and>
   timers ended_once = [(65000, Some ''c1'')] \<and>
   timers grace_elapsed = [] \<and>
   map_of (callAudioChunks grace_elapsed) (Some ''c1'') = None"
  by code_simp


subsection \<open>Publishing a transcript delta\<close>

text \<open>
  Publishing over sockets that accept the write. When a transcript delta is published
  for a call and no socket of a registered observer throws, publishing raises no
  exception and changes nothing but the sockets; every socket obtains one
  \<open>call_transcript\<close> message, with the call identifier and the text published, for each
  registered observer that owns it, and nothing else; so every observer that is in the
  registry receives the message, and an observer identifier that is not in the registry
  is skipped: it contributes no message and does not disturb the delivery to the others.
\<close>

lemma publish_over_writable_sockets:
  "writable s (observers_of s cid) \<longrightarrow>
     (case broadcastTranscriptionUpdate s cid said isFinal now of
        (s', ok) \<Rightarrow>
          ok \<and>
          s' = s\<lparr>sockets := sockets s'\<rparr> \<and>
          (\<forall>r. outbox (sockets s' r) = outbox (sockets s r) @
                 replicate (subscriptions s (observers_of s cid) r) (Call_transcript cid said isFinal now)) \<and>
          (\<forall>clientId \<in> set (observers_of s cid). \<forall>client.
              getDevice s clientId = Some client \<longrightarrow>
              0 < subscriptions s (observers_of s cid) (ws client)))"
proof
  assume w: "writable s (observers_of s cid)"
  let ?m = "Call_transcript cid said isFinal now"
  obtain s' ok where b: "notify_observers s cid ?m = (s', ok)" by force
  from notify_observers_delivers[OF w _ _ _ b]
  have ok and box: "\<forall>r. sockets s' r = (sockets s r)\<lparr>outbox := outbox (sockets s r) @
                     replicate (subscriptions s (observers_of s cid) r) ?m\<rparr>"
    by simp_all
  have pos: "0 < subscriptions s (observers_of s cid) (ws client)"
    if "clientId \<in> set (observers_of s cid)" "getDevice s clientId = Some client" for clientId client
    using that by (auto simp: subscriptions_def filter_empty_conv intro!: bexI[of _ clientId])
  from \<open>ok\<close> box pos notify_observers_frame[OF b] show
    "case broadcastTranscriptionUpdate s cid said isFinal now of
        (s', ok) \<Rightarrow>
          ok \<and>
          s' = s\<lparr>sockets := sockets s'\<rparr> \<and>
          (\<forall>r. outbox (sockets s' r) = outbox (sockets s r) @
                 replicate (subscriptions s (observers_of s cid) r) ?m) \<and>
          (\<forall>clientId \<in> set (observers_of s cid). \<forall>client.
              getDevice s clientId = Some client \<longrightarrow>
              0 < subscriptions s (observers_of s cid) (ws client))"
    unfolding broadcastTranscriptionUpdate_def b by simp
qed


text \<open>
  Scenario C: \<open>o1\<close> and \<open>o2\<close> each receive the \<open>call_transcript\<close> message for \<open>c1\<close>
  with the text \<open>hello\<close>; the unregistered \<open>ghost\<close>, which sits between them in the
  observer set, is skipped without an exception.
\<close>

lemma publish_scenario_C:
  "observers_of scenario_C (Some ''c1'') = [''o1'', ''ghost'', ''o2''] \<and>
   map_option ws (getDevice scenario_C ''o1'') = Some 7 \<and>
   map_option ws (getDevice scenario_C ''o2'') = Some 8 \<and>
   getDevice scenario_C ''ghost'' = None \<and>
   writable scenario_C (observers_of scenario_C (Some ''c1'')) \<and>
   snd (broadcastTranscriptionUpdate scenario_C (Some ''c1'') ''hello'' False 1000) \<and>
   outbox (sockets (fst (broadcastTranscriptionUpdate scenario_C (Some ''c1'') ''hello'' False 1000)) 7) =
     outbox (sockets scenario_C 7) @ [Call_transcript (Some ''c1'') ''hello'' False 1000] \<and>
   outbox (sockets (fst (broadcastTranscriptionUpdate scenario_C (Some ''c1'') ''hello'' False 1000)) 8) =
     outbox (sockets scenario_C 8) @ [Call_transcript (Some ''c1'') ''hello'' False 1000]"
proof -
  have a: "observers_of scenario_C (Some ''c1'') = [''o1'', ''ghost'', ''o2'']" by code_simp
  have b: "map_option ws (getDevice scenario_C ''o1'') = Some 7"
    "map_option ws (getDevice scenario_C ''o2'') = Some 8"
    "getDevice scenario_C ''ghost'' = None"
    by code_simp+
  have w: "writable scenario_C (observers_of scenario_C (Some ''c1''))" by code_simp
  have k: "subscriptions scenario_C [''o1'', ''ghost'', ''o2''] 7 = 1"
    "subscriptions scenario_C [''o1'', ''ghost'', ''o2''] 8 = 1"
    by code_simp+
  note th = publish_over_writable_sockets
    [where s = scenario_C and cid = "Some ''c1''" and said = "''hello''" and isFinal = False
       and now = 1000, THEN mp, OF w, unfolded case_prod_beta]
  have 1: "snd (broadcastTranscriptionUpdate scenario_C (Some ''c1'') ''hello'' False 1000)"
    by (rule th[THEN conjunct1])
  note box = th[THEN conjunct2, THEN conjunct2, THEN conjunct1, rule_format]
  from a b w 1 box[of 7] box[of 8] show ?thesis by (simp add: k)
qed


subsection \<open>Outbound deliveries and the eviction of inactive connections\<close>

lemma broadcast_each_devices:
  assumes "distinct (map fst ds)"
  shows "map_of (devices (snd (broadcast_each s ds m now a b))) i =
           (case map_of ds i of
              None \<Rightarrow> map_of (devices s) i
            | Some dev \<Rightarrow> if throwing (sockets s (ws dev)) then map_of (devices s) i
                          else Some (dev\<lparr>lastActive := now\<rparr>)) \<and>
         (\<forall>r. throwing (sockets (snd (broadcast_each s ds m now a b)) r) = throwing (sockets s r))"
  using assms
proof (induction ds arbitrary: s a b)
  case Nil
  then show ?case by simp
next
  case (Cons x ds)
  obtain j dev where x: "x = (j, dev)" by (cases x)
  from Cons.prems have d: "distinct (map fst ds)" and nj: "map_of ds j = None"
    by (auto simp: x map_of_eq_None_iff)
  show ?case
  proof (cases "throwing (sockets s (ws dev))")
    case True
    then have run: "broadcast_each s (x # ds) m now a b = broadcast_each s ds m now a (Suc b)"
      by (simp add: x ws_send_throwing)
    show ?thesis
    proof (cases "i = j")
      case eq: True
      from Cons.IH[OF d, of s a "Suc b"] True nj show ?thesis
        unfolding run by (simp add: x eq)
    next
      case ne: False
      from Cons.IH[OF d, of s a "Suc b"] show ?thesis
        unfolding run by (simp add: x ne)
    qed
  next
    case False
    define s' where "s' = s\<lparr>sockets := (sockets s)(ws dev := (sockets s (ws dev))\<lparr>outbox := outbox (sockets s (ws dev)) @ [m]\<rparr>),
                           devices := AList.update j (dev\<lparr>lastActive := now\<rparr>) (devices s)\<rparr>"
    from False have run: "broadcast_each s (x # ds) m now a b = broadcast_each s' ds m now (Suc a) b"
      by (simp add: x ws_send_writable s'_def)
    have thr: "throwing (sockets s' r) = throwing (sockets s r)" for r by (simp add: s'_def)
    have dv: "map_of (devices s') k = (if k = j then Some (dev\<lparr>lastActive := now\<rparr>) else map_of (devices s) k)" for k
      by (simp add: s'_def update_conv')
    show ?thesis
    proof (cases "i = j")
      case True
      from Cons.IH[OF d, of s' "Suc a" b] False nj show ?thesis
        unfolding run by (simp add: x thr dv True)
    next
      case ne: False
      from Cons.IH[OF d, of s' "Suc a" b] False show ?thesis
        unfolding run by (simp add: x thr dv ne split: option.splits)
    qed
  qed
qed

lemma clean_each_devices:
  assumes "distinct (map fst ds)"
  shows "map_of (devices (snd (clean_each s ds mx now n))) i =
           (case map_of ds i of
              None \<Rightarrow> map_of (devices s) i
            | Some dev \<Rightarrow> if now - lastActive dev > mx then None else map_of (devices s) i)"
  using assms
proof (induction ds arbitrary: s n)
  case Nil
  then show ?case by simp
next
  case (Cons x ds)
  obtain j dev where x: "x = (j, dev)" by (cases x)
  from Cons.prems have d: "distinct (map fst ds)" and nj: "map_of ds j = None"
    by (auto simp: x map_of_eq_None_iff)
  show ?case
  proof (cases "now - lastActive dev > mx")
    case True
    define s' where "s' = (ws_close s (ws dev))\<lparr>devices := AList.delete j (devices s)\<rparr>"
    from True have run: "clean_each s (x # ds) mx now n = clean_each s' ds mx now (Suc n)"
      by (simp add: x s'_def)
    have dv: "map_of (devices s') k = (if k = j then None else map_of (devices s) k)" for k
      by (simp add: s'_def delete_conv' ws_close_def)
    show ?thesis
    proof (cases "i = j")
      case eq: True
      from Cons.IH[OF d, of s' "Suc n"] True nj show ?thesis
        unfolding run by (simp add: x dv eq)
    next
      case ne: False
      from Cons.IH[OF d, of s' "Suc n"] show ?thesis
        unfolding run by (simp add: x dv ne split: option.splits)
    qed
  next
    case False
    then have run: "clean_each s (x # ds) mx now n = clean_each s ds mx now n"
      by (simp add: x)
    show ?thesis
    proof (cases "i = j")
      case eq: True
      from Cons.IH[OF d, of s n] False nj show ?thesis
        unfolding run by (simp add: x eq)
    next
      case ne: False
      from Cons.IH[OF d, of s n] show ?thesis
        unfolding run by (simp add: x ne)
    qed
  qed
qed


lemma sendToDevice_cases:
  "sendToDevice s i m now =
     (case getDevice s i of
        None \<Rightarrow> (False, s)
      | Some dev \<Rightarrow>
          if throwing (sockets s (ws dev)) then (False, s)
          else (True, s\<lparr>sockets := (sockets s)(ws dev := (sockets s (ws dev))\<lparr>outbox := outbox (sockets s (ws dev)) @ [m]\<rparr>),
                        devices := AList.update i (dev\<lparr>lastActive := now\<rparr>) (devices s)\<rparr>))"
  by (simp add: sendToDevice_def getDevice_def ws_send_def Let_def split: option.splits)

lemma cleanInactiveDevices_entry:
  assumes "distinct (map fst (devices s))"
  shows "getDevice (snd (cleanInactiveDevices s maxInactiveTime now)) i =
       (case getDevice s i of
          None \<Rightarrow> None
        | Some dev \<Rightarrow>
            if now - lastActive dev > (case maxInactiveTime of None \<Rightarrow> 30 * 60 * 1000 | Some t \<Rightarrow> t)
            then None else Some dev)"
  using clean_each_devices[OF assms, of s _ now 0 i]
  by (simp add: cleanInactiveDevices_def getDevice_def split: option.splits)

text \<open>
  C10. A directed send to a registered connection whose socket accepts the write
  succeeds and sets the \<open>lastActive\<close> of its registry entry to the current time, changing
  no other field of the entry and no other entry; a send that throws returns failure
  and changes nothing, as does a send to an unknown identifier. A broadcast does the
  same for each connection: the entries whose socket accepts the write get
  \<open>lastActive\<close> set to the current time, the others are unchanged. The eviction removes
  exactly the entries with \<open>now - lastActive\<close> above the threshold (30 minutes when none
  is given); so after a successful send at time \<open>now\<close> the connection is evicted at a
  later time only if more than 30 minutes have passed since that send.
\<close>

theorem delivery_refreshes_lastActive:
  "(\<forall>dev. getDevice s i = Some dev \<longrightarrow>
      (if throwing (sockets s (ws dev))
       then sendToDevice s i m now = (False, s)
       else fst (sendToDevice s i m now) \<and>
            getDevice (snd (sendToDevice s i m now)) i = Some (dev\<lparr>lastActive := now\<rparr>) \<and>
            (\<forall>j. j \<noteq> i \<longrightarrow> getDevice (snd (sendToDevice s i m now)) j = getDevice s j) \<and>
            (distinct (map fst (devices s)) \<longrightarrow>
               (\<forall>later. (getDevice (snd (cleanInactiveDevices (snd (sendToDevice s i m now)) None later)) i = None)
                         = (later - now > 30 * 60 * 1000))))) \<and>
   (getDevice s i = None \<longrightarrow> sendToDevice s i m now = (False, s)) \<and>
   (distinct (map fst (devices s)) \<longrightarrow>
      (\<forall>dev. getDevice s i = Some dev \<longrightarrow>
         getDevice (snd (broadcastToAll s m now)) i =
           Some (if throwing (sockets s (ws dev)) then dev else dev\<lparr>lastActive := now\<rparr>)) \<and>
      getDevice (snd (cleanInactiveDevices s maxInactiveTime now)) i =
        (case getDevice s i of
           None \<Rightarrow> None
         | Some dev \<Rightarrow>
             if now - lastActive dev > (case maxInactiveTime of None \<Rightarrow> 30 * 60 * 1000 | Some t \<Rightarrow> t)
             then None else Some dev))"
proof (intro conjI allI impI)
  fix dev
  assume p: "getDevice s i = Some dev"
  show "if throwing (sockets s (ws dev))
       then sendToDevice s i m now = (False, s)
       else fst (sendToDevice s i m now) \<and>
            getDevice (snd (sendToDevice s i m now)) i = Some (dev\<lparr>lastActive := now\<rparr>) \<and>
            (\<forall>j. j \<noteq> i \<longrightarrow> getDevice (snd (sendToDevice s i m now)) j = getDevice s j) \<and>
            (distinct (map fst (devices s)) \<longrightarrow>
               (\<forall>later. (getDevice (snd (cleanInactiveDevices (snd (sendToDevice s i m now)) None later)) i = None)
                         = (later - now > 30 * 60 * 1000)))"
  proof (cases "throwing (sockets s (ws dev))")
    case True
    with p show ?thesis by (simp add: sendToDevice_cases)
  next
    case False
    define s' where "s' = snd (sendToDevice s i m now)"
    have s': "s' = s\<lparr>sockets := (sockets s)(ws dev := (sockets s (ws dev))\<lparr>outbox := outbox (sockets s (ws dev)) @ [m]\<rparr>),
                        devices := AList.update i (dev\<lparr>lastActive := now\<rparr>) (devices s)\<rparr>"
      and ok: "fst (sendToDevice s i m now)"
      using p False by (simp_all add: s'_def sendToDevice_cases)
    have e: "getDevice s' k = (if k = i then Some (dev\<lparr>lastActive := now\<rparr>) else getDevice s k)" for k
      by (simp add: s' getDevice_def update_conv')
    have "(getDevice (snd (cleanInactiveDevices s' None later)) i = None) = (later - now > 30 * 60 * 1000)"
      if d: "distinct (map fst (devices s))" for later
    proof -
      have "distinct (map fst (devices s'))" using d by (simp add: s' distinct_update)
      from cleanInactiveDevices_entry[OF this, of None later i] show ?thesis by (simp add: e)
    qed
    with False ok e show ?thesis unfolding s'_def by simp
  qed
next
  assume "getDevice s i = None"
  then show "sendToDevice s i m now = (False, s)" by (simp add: sendToDevice_cases)
next
  fix dev
  assume d: "distinct (map fst (devices s))" and p: "getDevice s i = Some dev"
  from broadcast_each_devices[OF d, of s m now 0 0 i] p
  show "getDevice (snd (broadcastToAll s m now)) i =
           Some (if throwing (sockets s (ws dev)) then dev else dev\<lparr>lastActive := now\<rparr>)"
    by (simp add: broadcastToAll_def getDevice_def)
next
  assume d: "distinct (map fst (devices s))"
  from cleanInactiveDevices_entry[OF d]
  show "getDevice (snd (cleanInactiveDevices s maxInactiveTime now)) i =
        (case getDevice s i of
           None \<Rightarrow> None
         | Some dev \<Rightarrow>
             if now - lastActive dev > (case maxInactiveTime of None \<Rightarrow> 30 * 60 * 1000 | Some t \<Rightarrow> t)
             then None else Some dev)" .
qed


text \<open>
  Witness for C10: \<open>d1\<close> and \<open>o1\<close> were last active at time 0. A send to \<open>d1\<close> at
  1000 s succeeds and refreshes its \<open>lastActive\<close> only; at 1800.001 s the eviction would
  have removed \<open>d1\<close> without that send and keeps it after it. When the socket of \<open>d1\<close>
  throws, the send fails and changes nothing, and a broadcast refreshes \<open>o1\<close> but not
  \<open>d1\<close>. A send to the unknown \<open>zz\<close> fails.
\<close>

theorem delivery_refreshes_lastActive_witness:
  "getDevice observed_c1 ''d1'' = Some (new_device ''d1'' 3 0) \<and>
   \<not> throwing (sockets observed_c1 3) \<and>
   distinct (map fst (devices observed_c1)) \<and>
   fst (sendToDevice observed_c1 ''d1'' (Payload ''ping'') 1000000) \<and>
   getDevice (snd (sendToDevice observed_c1 ''d1'' (Payload ''ping'') 1000000)) ''d1'' =
     Some ((new_device ''d1'' 3 0)\<lparr>lastActive := 1000000\<rparr>) \<and>
   getDevice (snd (sendToDevice observed_c1 ''d1'' (Payload ''ping'') 1000000)) ''o1'' =
     getDevice observed_c1 ''o1'' \<and>
   getDevice (snd (cleanInactiveDevices observed_c1 None 1800001)) ''d1'' = None \<and>
   getDevice (snd (cleanInactiveDevices
       (snd (sendToDevice observed_c1 ''d1'' (Payload ''ping'') 1000000)) None 1800001)) ''d1'' \<noteq> None \<and>
   getDevice broken_d1 ''d1'' = Some (new_device ''d1'' 3 0) \<and>
   throwing (sockets broken_d1 3) \<and>
   sendToDevice broken_d1 ''d1'' (Payload ''ping'') 1000000 = (False, broken_d1) \<and>
   getDevice observed_c1 ''zz'' = None \<and>
   sendToDevice observed_c1 ''zz'' (Payload ''ping'') 1000000 = (False, observed_c1) \<and>
   distinct (map fst (devices broken_d1)) \<and>
   getDevice (snd (broadcastToAll broken_d1 (Payload ''ping'') 1000000)) ''d1'' =
     Some (new_device ''d1'' 3 0) \<and>
   getDevice broken_d1 ''o1'' = Some (new_device ''o1'' 7 0) \<and>
   \<not> throwing (sockets broken_d1 7) \<and>
   getDevice (snd (broadcastToAll broken_d1 (Payload ''ping'') 1000000)) ''o1'' =
     Some ((new_device ''o1'' 7 0)\<lparr>lastActive := 1000000\<rparr>)"
proof -
  have g: "getDevice observed_c1 ''d1'' = Some (new_device ''d1'' 3 0)" by code_simp
  have nt: "\<not> throwing (sockets observed_c1 3)" by code_simp
  have d: "distinct (map fst (devices observed_c1))" by code_simp
  have gb: "getDevice broken_d1 ''d1'' = Some (new_device ''d1'' 3 0)" by code_simp
  have tb: "throwing (sockets broken_d1 3)" by code_simp
  have z: "getDevice observed_c1 ''zz'' = None" by code_simp
  have db: "distinct (map fst (devices broken_d1))" by code_simp
  have ob: "getDevice broken_d1 ''o1'' = Some (new_device ''o1'' 7 0)" by code_simp
  have nb: "\<not> throwing (sockets broken_d1 7)" by code_simp
  have wsD [simp]: "ws (new_device k w t) = w" "lastActive (new_device k w t) = t" for k w t
    by (simp_all add: new_device_def)
  note a = delivery_refreshes_lastActive
    [where s = observed_c1 and i = "''d1''" and m = "Payload ''ping''" and now = 1000000
       and maxInactiveTime = None]
  note a1 = a[THEN conjunct1, rule_format, OF g]
  from a1 nt have 1: "fst (sendToDevice observed_c1 ''d1'' (Payload ''ping'') 1000000)"
    and 2: "getDevice (snd (sendToDevice observed_c1 ''d1'' (Payload ''ping'') 1000000)) ''d1'' =
     Some ((new_device ''d1'' 3 0)\<lparr>lastActive := 1000000\<rparr>)"
    and 3: "getDevice (snd (sendToDevice observed_c1 ''d1'' (Payload ''ping'') 1000000)) ''o1'' =
     getDevice observed_c1 ''o1''"
    and 4: "(getDevice (snd (cleanInactiveDevices
       (snd (sendToDevice observed_c1 ''d1'' (Payload ''ping'') 1000000)) None 1800001)) ''d1'' = None)
       = (1800001 - 1000000 > (30 * 60 * 1000 :: int))"
    using d by simp_all
  note c = delivery_refreshes_lastActive
    [where s = observed_c1 and i = "''d1''" and m = "Payload ''ping''" and now = 1800001
       and maxInactiveTime = None, THEN conjunct2, THEN conjunct2, rule_format, OF d]
  from c g have 5: "getDevice (snd (cleanInactiveDevices observed_c1 None 1800001)) ''d1'' = None"
    by simp
  note b = delivery_refreshes_lastActive
    [where s = broken_d1 and i = "''d1''" and m = "Payload ''ping''" and now = 1000000
       and maxInactiveTime = None]
  from b[THEN conjunct1, rule_format, OF gb] tb
  have 6: "sendToDevice broken_d1 ''d1'' (Payload ''ping'') 1000000 = (False, broken_d1)" by simp
  from b[THEN conjunct2, THEN conjunct2, rule_format, OF db, THEN conjunct1, rule_format, OF gb] tb
  have 7: "getDevice (snd (broadcastToAll broken_d1 (Payload ''ping'') 1000000)) ''d1'' =
     Some (new_device ''d1'' 3 0)" by simp
  from delivery_refreshes_lastActive
    [where s = observed_c1 and i = "''zz''" and m = "Payload ''ping''" and now = 1000000
       and maxInactiveTime = None, THEN conjunct2, THEN conjunct1, rule_format, OF z]
  have 8: "sendToDevice observed_c1 ''zz'' (Payload ''ping'') 1000000 = (False, observed_c1)" .
  from delivery_refreshes_lastActive
    [where s = broken_d1 and i = "''o1''" and m = "Payload ''ping''" and now = 1000000
       and maxInactiveTime = None, THEN conjunct2, THEN conjunct2, rule_format, OF db,
       THEN conjunct1, rule_format, OF ob] nb
  have 9: "getDevice (snd (broadcastToAll broken_d1 (Payload ''ping'') 1000000)) ''o1'' =
     Some ((new_device ''o1'' 7 0)\<lparr>lastActive := 1000000\<rparr>)" by simp
  from 4 have keep: "getDevice (snd (cleanInactiveDevices
       (snd (sendToDevice observed_c1 ''d1'' (Payload ''ping'') 1000000)) None 1800001)) ''d1'' \<noteq> None"
    by simp
  from g nt d 1 2 3 5 keep gb tb 6 z 8 db 7 ob nb 9 show ?thesis by (intro conjI)
qed


subsection \<open>The message handler and its error reply\<close>

lemma error_replies_sockets: "sockets s' = sockets s \<Longrightarrow> error_replies s' r = error_replies s r"
  by (simp add: error_replies_def)

lemma error_replies_update:
  "error_replies (s\<lparr>devices := a\<rparr>) r = error_replies s r"
  "error_replies (s\<lparr>activeCalls := b\<rparr>) r = error_replies s r"
  "error_replies (s\<lparr>callAudioChunks := c\<rparr>) r = error_replies s r"
  "error_replies (s\<lparr>callTranscriptions := d\<rparr>) r = error_replies s r"
  "error_replies (s\<lparr>callObservers := e\<rparr>) r = error_replies s r"
  "error_replies (s\<lparr>speechCalls := f\<rparr>) r = error_replies s r"
  "error_replies (s\<lparr>timers := g\<rparr>) r = error_replies s r"
  by (simp_all add: error_replies_def)

lemma ws_send_quiet:
  "ws_send s w m = Some s' \<Longrightarrow> \<not> is_error_reply m \<Longrightarrow> error_replies s' r = error_replies s r"
  by (auto simp: ws_send_def error_replies_def Let_def split: if_splits)

lemma forEach_observer_quiet:
  "\<not> is_error_reply m \<Longrightarrow> error_replies (fst (forEach_observer s ids m)) r = error_replies s r"
proof (induction ids arbitrary: s)
  case Nil
  then show ?case by simp
next
  case (Cons c ids)
  show ?case
  proof (cases "getDevice s c")
    case None
    with Cons show ?thesis by simp
  next
    case (Some client)
    show ?thesis
    proof (cases "ws_send s (ws client) m")
      case None
      with Some show ?thesis by simp
    next
      case (Some s1)
      with \<open>getDevice s c = Some client\<close> Cons.IH[OF Cons.prems, of s1] ws_send_quiet[OF Some Cons.prems, of r]
      show ?thesis by simp
    qed
  qed
qed

lemma notify_observers_quiet:
  "\<not> is_error_reply m \<Longrightarrow> error_replies (fst (notify_observers s cid m)) r = error_replies s r"
  by (simp add: notify_observers_def forEach_observer_quiet split: option.splits)

lemma broadcasts_quiet:
  "error_replies (fst (broadcastCallUpdate s cid c)) r = error_replies s r"
  "error_replies (fst (broadcastTranscriptionUpdate s cid said isFinal now)) r = error_replies s r"
  "error_replies (fst (broadcastAiResponse s cid said now)) r = error_replies s r"
  "error_replies (fst (broadcastCallSummary s cid said now)) r = error_replies s r"
  by (simp_all add: broadcastCallUpdate_def broadcastTranscriptionUpdate_def broadcastAiResponse_def
        broadcastCallSummary_def notify_observers_quiet is_error_reply_def)

lemma registerCall_quiet:
  "error_replies (snd (registerCall s cid phone dev incoming now)) r = error_replies s r"
proof -
  define c where "c = fresh_call cid phone dev incoming now"
  define s1 where "s1 = s\<lparr>activeCalls := AList.update cid c (activeCalls s),
      callAudioChunks := AList.update cid [] (callAudioChunks s),
      callTranscriptions := AList.update cid [] (callTranscriptions s)\<rparr>"
  have "snd (registerCall s cid phone dev incoming now) = fst (broadcastCallUpdate s1 cid c)"
    by (simp add: registerCall_def Let_def case_prod_beta c_def s1_def fresh_call_def)
  moreover have "error_replies s1 r = error_replies s r" by (simp add: error_replies_def s1_def)
  ultimately show ?thesis by (simp add: broadcasts_quiet)
qed

lemma finalize_resume_quiet:
  "error_replies (finalize_resume s cid a now) r = error_replies s r"
proof (cases "map_of (activeCalls s) cid")
  case None
  then show ?thesis by (simp add: finalize_resume_def)
next
  case (Some c)
  define s1 where "s1 = s\<lparr>activeCalls := AList.update cid (c\<lparr>summary := Some a\<rparr>) (activeCalls s)\<rparr>"
  define s2 where "s2 = fst (broadcastCallSummary s1 cid a now)"
  have "sockets (finalize_resume s cid a now) = sockets s2"
    using Some by (simp add: finalize_resume_def Let_def case_prod_beta s1_def s2_def)
  then have "error_replies (finalize_resume s cid a now) r = error_replies s2 r"
    by (rule error_replies_sockets)
  also have "\<dots> = error_replies s1 r" by (simp add: s2_def broadcasts_quiet)
  also have "\<dots> = error_replies s r" by (simp add: error_replies_def s1_def)
  finally show ?thesis .
qed

lemma updateCallStatus_quiet:
  "error_replies (snd (updateCallStatus s cid st now a)) r = error_replies s r"
proof (cases "map_of (activeCalls s) cid")
  case None
  then show ?thesis by (simp add: updateCallStatus_def)
next
  case (Some c0)
  define c2 where "c2 = set_status c0 st now"
  define s1 where "s1 = s\<lparr>activeCalls := AList.update cid c2 (activeCalls s)\<rparr>"
  define s2 where "s2 = (if st = Some ''ended'' then fst (finalize_request s1 cid) else s1)"
  define s3 where "s3 = fst (broadcastCallUpdate s2 cid c2)"
  have "snd (updateCallStatus s cid st now a) = s3 \<or>
        snd (updateCallStatus s cid st now a) = finalize_resume s3 cid a now"
    using Some by (simp add: updateCallStatus_def Let_def case_prod_beta c2_def s1_def s2_def s3_def)
  then have "error_replies (snd (updateCallStatus s cid st now a)) r = error_replies s3 r"
    by (auto simp: finalize_resume_quiet)
  also have "\<dots> = error_replies s2 r" by (simp add: s3_def broadcasts_quiet)
  also have "\<dots> = error_replies s1 r"
    by (simp add: s2_def finalize_request_eq error_replies_def)
  also have "\<dots> = error_replies s r" by (simp add: error_replies_def s1_def)
  finally show ?thesis .
qed


lemma processTranscriptForResponse_quiet:
  "error_replies (processTranscriptForResponse s cid said now reply) r = error_replies s r"
proof (cases "map_of (activeCalls s) cid")
  case None
  then show ?thesis by (simp add: processTranscriptForResponse_def)
next
  case (Some c)
  define s1 where "s1 = s\<lparr>speechCalls := speechCalls s @ [Delta_prompt cid said]\<rparr>"
  have s1: "error_replies s1 r = error_replies s r" by (simp add: error_replies_def s1_def)
  define sent where "sent = (case getDevice s1 (deviceId c) of
                            None \<Rightarrow> Some s1
                          | Some dev \<Rightarrow> ws_send s1 (ws dev) (Call_command cid ''speak'' reply))"
  have run: "processTranscriptForResponse s cid said now reply =
      (if reply = [] then s1
       else case sent of None \<Rightarrow> s1 | Some s2 \<Rightarrow> fst (broadcastAiResponse s2 cid reply now))"
    using Some unfolding sent_def s1_def by (simp add: processTranscriptForResponse_def Let_def)
  have "error_replies s2 r = error_replies s1 r" if "sent = Some s2" for s2
    using that ws_send_quiet[of s1 _ "Call_command cid ''speak'' reply" s2 r]
    by (auto simp: sent_def is_error_reply_def split: option.splits)
  then show ?thesis
    unfolding run by (simp add: s1 broadcasts_quiet split: option.splits)
qed

lemma processAudioForTranscription_sockets:
  "sockets (fst (processAudioForTranscription s cid heard)) = sockets s"
  by (simp add: processAudioForTranscription_def Let_def split: option.splits)

lemma processCallAudio_quiet:
  "error_replies (snd (processCallAudio s cid audio now heard reply)) r = error_replies s r"
proof (cases "map_of (activeCalls s) cid")
  case None
  then show ?thesis by (simp add: processCallAudio_def)
next
  case (Some c)
  show ?thesis
  proof (cases audio)
    case None
    with Some show ?thesis by (simp add: processCallAudio_def)
  next
    case chunk: (Some audioBuffer)
    define s1 where "s1 = (case map_of (callAudioChunks s) cid of
          Some chunks \<Rightarrow>
            s\<lparr>callAudioChunks := AList.update cid (chunks @ [audioBuffer]) (callAudioChunks s)\<rparr>
        | None \<Rightarrow>
            s\<lparr>callAudioChunks := AList.update cid [audioBuffer] (callAudioChunks s)\<rparr>)"
    define s2 where "s2 = fst (processAudioForTranscription s1 cid heard)"
    define upd where "upd = snd (processAudioForTranscription s1 cid heard)"
    have e1: "error_replies s1 r = error_replies s r"
      by (simp add: error_replies_def s1_def split: option.splits)
    have e2: "error_replies s2 r = error_replies s1 r"
      by (simp add: error_replies_def s2_def processAudioForTranscription_sockets)
    have run: "snd (processCallAudio s cid audio now heard reply) =
        (case upd of
           None \<Rightarrow> s2
         | Some said \<Rightarrow>
             if said = [] then s2
             else (let whole = (case transcript c of None \<Rightarrow> [] | Some t \<Rightarrow> t) @ '' '' @ said;
                       s3 = s2\<lparr>activeCalls := AList.update cid (c\<lparr>transcript := Some whole\<rparr>) (activeCalls s2),
                              callTranscriptions := AList.update cid whole (callTranscriptions s2)\<rparr>
                   in if snd (broadcastTranscriptionUpdate s3 cid said False now)
                      then processTranscriptForResponse (fst (broadcastTranscriptionUpdate s3 cid said False now))
                             cid said now reply
                      else fst (broadcastTranscriptionUpdate s3 cid said False now)))"
      using Some chunk unfolding s1_def s2_def upd_def
      by (simp add: processCallAudio_def Let_def case_prod_beta split: option.splits)
    have "error_replies (snd (processCallAudio s cid audio now heard reply)) r = error_replies s2 r"
      unfolding run
      by (simp add: Let_def processTranscriptForResponse_quiet broadcasts_quiet error_replies_update
            split: option.splits)
    with e1 e2 show ?thesis by simp
  qed
qed

lemma handlers_quiet:
  "error_replies (handleNotification s w data result) r = error_replies s r"
  "error_replies (handleSMS s w data result) r = error_replies s r"
  "error_replies (handleCall s w data) r = error_replies s r"
  "error_replies (updateDeviceInfo s i data now) r = error_replies s r"
  "error_replies (addCallObserver s cid i) r = error_replies s r"
proof -
  have n: "\<not> is_error_reply (Processed k q a)" for k q a by (simp add: is_error_reply_def)
  show "error_replies (handleNotification s w data result) r = error_replies s r"
    using ws_send_quiet[OF _ n, of s w] by (auto simp: handleNotification_def split: option.splits)
  show "error_replies (handleSMS s w data result) r = error_replies s r"
    using ws_send_quiet[OF _ n, of s w] by (auto simp: handleSMS_def split: option.splits)
  show "error_replies (handleCall s w data) r = error_replies s r"
    by (simp add: handleCall_def)
  show "error_replies (updateDeviceInfo s i data now) r = error_replies s r"
    by (simp add: updateDeviceInfo_def error_replies_def split: option.splits)
  show "error_replies (addCallObserver s cid i) r = error_replies s r"
    by (simp add: addCallObserver_def error_replies_def Let_def split: option.splits)
qed


text \<open>
  Where the error reply comes from. A frame that reaches the dispatch never produces an
  error reply, whatever its type and whichever of its fields are absent; the three kinds
  of frame that throw before the dispatch are answered with the error reply
  \<open>Failed to process message\<close>, unless the sender's socket refuses the write.
\<close>

lemma dispatch_sends_no_error_reply:
  "error_replies (ws_on_message s connectionId w (Parsed data) now a1 a2) r = error_replies s r"
  by (simp add: ws_on_message_def handlers_quiet processCallAudio_quiet registerCall_quiet
        updateCallStatus_quiet)

lemma catch_sends_error_reply:
  assumes "message = Unparsable \<or> message = Null_frame \<or> message = Unprintable_type"
  shows "ws_on_message s connectionId w message now a1 a2 =
     (if throwing (sockets s w) then s
      else s\<lparr>sockets := (sockets s)(w := (sockets s w)\<lparr>outbox := outbox (sockets s w) @
                [Error_reply ''Failed to process message'']\<rparr>)\<rparr>)"
  using assms by (auto simp: ws_on_message_def reply_failure_def ws_send_def Let_def)

lemma unknown_type_changes_nothing:
  "m_type data \<notin> Some ` set known_types \<Longrightarrow>
     ws_on_message s connectionId w (Parsed data) now a1 a2 = s"
  by (simp add: ws_on_message_def known_types_def image_iff)

text \<open>
  C7 at inputs where the code departs from it. The device \<open>d1\<close> is connected on socket
  3, which is open and accepts writes, and nothing has been written to it. Its frame
  \<^verbatim>\<open>{"type":"bogus"}\<close>, of a type that the handler does not know, is answered with
  nothing: the sender is not acknowledged with an error reply. Its frame
  \<^verbatim>\<open>{"type":"call_register"}\<close>, which lacks \<open>callId\<close> and \<open>phoneNumber\<close>, is answered
  with nothing either, and a call is registered under the absent identifier. The same
  socket does get the error reply when the frame is not JSON.
\<close>

theorem unknown_type_and_missing_fields_not_rejected:
  "map_option ws (getDevice observed_c1 ''d1'') = Some 3 \<and>
   readyState (sockets observed_c1 3) = 1 \<and>
   \<not> throwing (sockets observed_c1 3) \<and>
   outbox (sockets observed_c1 3) = [] \<and>
   ''bogus'' \<notin> set known_types \<and>
   outbox (sockets
     (ws_on_message observed_c1 ''d1'' 3 (Parsed (no_fields\<lparr>m_type := Some ''bogus''\<rparr>)) 1000 [] []) 3) = [] \<and>
   outbox (sockets
     (ws_on_message observed_c1 ''d1'' 3 (Parsed (no_fields\<lparr>m_type := Some ''call_register''\<rparr>)) 1000 [] []) 3) = [] \<and>
   getCall observed_c1 None = None \<and>
   getCall (ws_on_message observed_c1 ''d1'' 3 (Parsed (no_fields\<lparr>m_type := Some ''call_register''\<rparr>)) 1000 [] [])
     None = Some (fresh_call None None ''d1'' None 1000) \<and>
   outbox (sockets (ws_on_message observed_c1 ''d1'' 3 Unparsable 1000 [] []) 3) =
     [Error_reply ''Failed to process message'']"
  by code_simp


end
